theory Spec2Isabelle
  imports Complex_Main
begin

section \<open>Single-precision arithmetic\<close>

text \<open>
  A \<open>highp float\<close> of the vertex stage, like a uniform or an attribute fed to it, is an
  IEEE 754 binary32 number: 24 significant bits, exponents from \<open>-149\<close> (the subnormals)
  to \<open>104\<close>, every operation rounded to the nearest representable number and a tie to
  the one with the even significand. Finite numbers are reals; \<open>None\<close> stands for a
  result that is not a finite number (an overflow to an infinity, a division by zero).
  Subnormal results are kept, as IEEE 754 has them.

  \<open>rne\<close> rounds to the nearest integer, ties to even; \<open>binade x\<close> is the exponent \<open>k\<close>
  with \<open>2^k \<le> |x| < 2^(k+1)\<close>; \<open>ulp_exponent x\<close> is the exponent of the last significant
  bit at \<open>x\<close>.
\<close>

definition rne :: "real \<Rightarrow> int" where
  "rne y =
     (let f = \<lfloor>y\<rfloor>; d = y - of_int f
      in if d < 1 / 2 then f else if 1 / 2 < d then f + 1 else if even f then f else f + 1)"

definition binade :: "real \<Rightarrow> int" where
  "binade x = \<lfloor>log 2 \<bar>x\<bar>\<rfloor>"

definition ulp_exponent :: "real \<Rightarrow> int" where
  "ulp_exponent x = max (binade x - 23) (- 149)"

definition max_float32 :: real where
  "max_float32 = (2 ^ 24 - 1) * 2 ^ 104"

definition round32 :: "real \<Rightarrow> real option" where
  "round32 x =
     (if x = 0 then Some 0
      else (let e = ulp_exponent x;
                r = of_int (rne (x / 2 powi e)) * 2 powi e
            in if max_float32 < \<bar>r\<bar> then None else Some r))"

text \<open>A real is a finite binary32 number when rounding leaves it as it is.\<close>

definition is_float32 :: "real \<Rightarrow> bool" where
  "is_float32 x \<longleftrightarrow> round32 x = Some x"

definition fadd :: "real \<Rightarrow> real \<Rightarrow> real option" where
  "fadd x y = round32 (x + y)"

definition fsub :: "real \<Rightarrow> real \<Rightarrow> real option" where
  "fsub x y = round32 (x - y)"

definition fmul :: "real \<Rightarrow> real \<Rightarrow> real option" where
  "fmul x y = round32 (x * y)"

definition fdiv :: "real \<Rightarrow> real \<Rightarrow> real option" where
  "fdiv x y = (if y = 0 then None else round32 (x / y))"


section \<open>Shader program\<close>

text \<open>
  GLSL \<open>mod(x, y) = x - y * floor(x / y)\<close>, each operation rounded; \<open>floor\<close> of a binary32
  number is one and needs no rounding.
\<close>

definition glsl_mod :: "real \<Rightarrow> real \<Rightarrow> real option" where
  "glsl_mod x y =
     Option.bind (fdiv x y) (\<lambda>q.
     Option.bind (fmul y (of_int \<lfloor>q\<rfloor>)) (\<lambda>p. fsub x p))"

text \<open>Vertex stage: \<open>lifeProgress = mod(time+timeOffset,1.0);\<close>\<close>

definition lifeProgress :: "real \<Rightarrow> real \<Rightarrow> real option" where
  "lifeProgress time timeOffset = Option.bind (fadd time timeOffset) (\<lambda>s. glsl_mod s 1.0)"

text \<open>
  GLSL \<open>clamp(x, minVal, maxVal)\<close> returns \<open>min(max(x, minVal), maxVal)\<close>, and its result is
  undefined when \<open>minVal > maxVal\<close>. What an implementation returns then is the parameter
  \<open>undef\<close>. The two formulas implementations use are \<open>clamp_min_max\<close> and
  \<open>clamp_max_min\<close>; they agree wherever \<open>clamp\<close> is defined. \<open>min\<close>, \<open>max\<close> and
  comparisons do not round.
\<close>

definition glsl_clamp ::
  "(real \<Rightarrow> real \<Rightarrow> real \<Rightarrow> real) \<Rightarrow> real \<Rightarrow> real \<Rightarrow> real \<Rightarrow> real" where
  "glsl_clamp undef x minVal maxVal =
     (if minVal > maxVal then undef x minVal maxVal else min (max x minVal) maxVal)"

definition clamp_min_max :: "real \<Rightarrow> real \<Rightarrow> real \<Rightarrow> real" where
  "clamp_min_max x minVal maxVal = min (max x minVal) maxVal"

definition clamp_max_min :: "real \<Rightarrow> real \<Rightarrow> real \<Rightarrow> real" where
  "clamp_max_min x minVal maxVal = max (min x maxVal) minVal"

text \<open>
  Fragment stage:
  \<^verbatim>\<open>float depth = gl_FragCoord.z / gl_FragCoord.w / 5.0;\<close>
  \<^verbatim>\<open>float opacity = clamp(0.2, 1.0, depth);\<close>
  \<^verbatim>\<open>color.a = sin(lifeProgress*100.0)*opacity;\<close>
  The two divisions, the sine and the product are kept exact here: what is stated of this
  stage is which operand \<open>clamp\<close> bounds, and rounding does not change that.
\<close>

definition frag_depth :: "real \<Rightarrow> real \<Rightarrow> real" where
  "frag_depth fragCoord_z fragCoord_w = fragCoord_z / fragCoord_w / 5.0"

definition frag_opacity :: "(real \<Rightarrow> real \<Rightarrow> real \<Rightarrow> real) \<Rightarrow> real \<Rightarrow> real" where
  "frag_opacity undef depth = glsl_clamp undef 0.2 1.0 depth"

definition frag_alpha :: "(real \<Rightarrow> real \<Rightarrow> real \<Rightarrow> real) \<Rightarrow> real \<Rightarrow> real \<Rightarrow> real" where
  "frag_alpha undef lp depth = sin (lp * 100.0) * frag_opacity undef depth"

text \<open>
  The opacity factor in the words of the specification: the depth clamped to
  \<open>[0.2, 1.0]\<close>, that is \<open>clamp(depth, 0.2, 1.0)\<close>.
\<close>

definition spec_opacity :: "real \<Rightarrow> real" where
  "spec_opacity depth = min (max depth 0.2) 1.0"

text \<open>
  Where a point at distance \<open>d\<close> in front of a three.js \<open>PerspectiveCamera\<close> with the
  planes \<open>near\<close> and \<open>far\<close> lands: \<open>gl_FragCoord.w\<close> is \<open>1 / d\<close>, and \<open>gl_FragCoord.z\<close> is
  the normalized depth \<open>(far + near) / (far - near) - 2 far near / ((far - near) d)\<close>
  mapped from \<open>[-1, 1]\<close> to the depth range \<open>[0, 1]\<close>.
\<close>

definition perspective_fragCoord :: "real \<Rightarrow> real \<Rightarrow> real \<Rightarrow> real \<times> real" where
  "perspective_fragCoord near far d =
     (((far + near) / (far - near) - 2 * far * near / ((far - near) * d) + 1) / 2, 1 / d)"



section \<open>Geometry buffers\<close>

datatype error = TypeError | RangeError

text \<open>
  \<open>new Float32Array(n)\<close>: a zero-filled array of \<open>n\<close> numbers. A negative length throws
  a \<open>RangeError\<close>, and so does a length above the limit of the engine, which differs
  between engines and is the parameter \<open>limit\<close>. Stored elements are kept exact: their
  rounding to single precision is not modelled.
\<close>

definition new_Float32Array :: "int \<Rightarrow> int \<Rightarrow> error + real list" where
  "new_Float32Array limit n =
     (if n < 0 \<or> limit < n then Inl RangeError else Inr (replicate (nat n) 0))"

text \<open>
  three.js \<open>BufferAttribute(array, itemSize)\<close> and \<open>InstancedBufferAttribute\<close>:
  \<open>count = array.length / itemSize\<close>; \<open>setX\<close>, \<open>setXYZ\<close>, \<open>setXYZW\<close> store at
  \<open>index * itemSize + 0 ..\<close>. A typed array ignores a store past its end, as list update does.
\<close>

record buffer_attribute =
  attr_array :: "real list"
  attr_itemSize :: nat

definition attr_count :: "buffer_attribute \<Rightarrow> nat" where
  "attr_count a = length (attr_array a) div attr_itemSize a"

definition setX :: "buffer_attribute \<Rightarrow> nat \<Rightarrow> real \<Rightarrow> buffer_attribute" where
  "setX a index x = a\<lparr>attr_array := (attr_array a)[index * attr_itemSize a := x]\<rparr>"

definition setXYZ :: "buffer_attribute \<Rightarrow> nat \<Rightarrow> real \<Rightarrow> real \<Rightarrow> real \<Rightarrow> buffer_attribute" where
  "setXYZ a index x y z =
     (let i = index * attr_itemSize a
      in a\<lparr>attr_array := (attr_array a)[i := x, i + 1 := y, i + 2 := z]\<rparr>)"

definition setXYZW ::
  "buffer_attribute \<Rightarrow> nat \<Rightarrow> real \<Rightarrow> real \<Rightarrow> real \<Rightarrow> real \<Rightarrow> buffer_attribute" where
  "setXYZW a index x y z w =
     (let i = index * attr_itemSize a
      in a\<lparr>attr_array := (attr_array a)[i := x, i + 1 := y, i + 2 := z, i + 3 := w]\<rparr>)"

text \<open>
  three.js \<open>Vector4\<close>: \<open>length() = sqrt(x*x + y*y + z*z + w*w)\<close> and
  \<open>normalize() = divideScalar(length() || 1)\<close>, so the zero vector stays the zero vector.
\<close>

record vector4 =
  vx :: real
  vy :: real
  vz :: real
  vw :: real

definition vec_length :: "vector4 \<Rightarrow> real" where
  "vec_length v = sqrt (vx v * vx v + vy v * vy v + vz v * vz v + vw v * vw v)"

definition divideScalar :: "vector4 \<Rightarrow> real \<Rightarrow> vector4" where
  "divideScalar v s = \<lparr>vx = vx v / s, vy = vy v / s, vz = vz v / s, vw = vw v / s\<rparr>"

definition normalize :: "vector4 \<Rightarrow> vector4" where
  "normalize v = divideScalar v (if vec_length v = 0 then 1 else vec_length v)"

text \<open>three.js \<open>Color.setHex\<close>: the three bytes of the hex value, each divided by 255.\<close>

definition setHex :: "nat \<Rightarrow> real \<times> real \<times> real" where
  "setHex hex =
     (real (hex div 65536 mod 256) / 255, real (hex div 256 mod 256) / 255,
      real (hex mod 256) / 255)"

text \<open>The palettes held in the \<open>green\<close> and \<open>orange\<close> refs of \<open>RoboticsScene\<close>.\<close>

definition green_mainColor :: nat where
  "green_mainColor = 0x8eb934"

definition orange_mainColor :: nat where
  "orange_mainColor = 0xfec23e"

text \<open>
  The constructor's five \<open>for\<close> loops. \<open>Math.random()\<close> is a sequence \<open>rng\<close> of numbers
  in \<open>[0, 1)\<close>; \<open>k\<close> is the number of draws made so far, and each loop returns the array it
  filled and the new \<open>k\<close>. A loop \<open>for (i = 0; i < ul; i++)\<close> with \<open>ul\<close> fixed at entry
  is a left fold over \<open>[0..<ul]\<close>.
\<close>

definition offsets_step ::
  "(nat \<Rightarrow> real) \<Rightarrow> buffer_attribute \<times> nat \<Rightarrow> nat \<Rightarrow> buffer_attribute \<times> nat" where
  "offsets_step rng ak i =
     (case ak of (a, k) \<Rightarrow>
        (let dist = 60
         in (setXYZ a i ((rng k - 0.5) * dist) ((rng (k + 1) - 0.5) * dist)
               ((rng (k + 2) - 0.5) * dist),
             k + 3)))"

definition fill_offsets ::
  "(nat \<Rightarrow> real) \<Rightarrow> buffer_attribute \<times> nat \<Rightarrow> buffer_attribute \<times> nat" where
  "fill_offsets rng ak = foldl (offsets_step rng) ak [0..<attr_count (fst ak)]"

text \<open>The colour loop carries the toggle \<open>count\<close> in place of a draw counter.\<close>

definition colors_step :: "buffer_attribute \<times> nat \<Rightarrow> nat \<Rightarrow> buffer_attribute \<times> nat" where
  "colors_step ac i =
     (case ac of (a, cnt) \<Rightarrow>
        if cnt = 1
        then (case setHex green_mainColor of (r, g, b) \<Rightarrow> (setXYZW a i r g b 1, 0))
        else (case setHex orange_mainColor of (r, g, b) \<Rightarrow> (setXYZW a i r g b 1, 1)))"

definition fill_colors :: "buffer_attribute \<Rightarrow> buffer_attribute" where
  "fill_colors colors = fst (foldl colors_step (colors, 1) [0..<attr_count colors])"

definition timeOffsets_step ::
  "(nat \<Rightarrow> real) \<Rightarrow> buffer_attribute \<times> nat \<Rightarrow> nat \<Rightarrow> buffer_attribute \<times> nat" where
  "timeOffsets_step rng ak i = (case ak of (a, k) \<Rightarrow> (setX a i (rng k), k + 1))"

definition fill_timeOffsets ::
  "(nat \<Rightarrow> real) \<Rightarrow> buffer_attribute \<times> nat \<Rightarrow> buffer_attribute \<times> nat" where
  "fill_timeOffsets rng ak = foldl (timeOffsets_step rng) ak [0..<attr_count (fst ak)]"

definition random_orientation :: "(nat \<Rightarrow> real) \<Rightarrow> nat \<Rightarrow> vector4" where
  "random_orientation rng k =
     normalize \<lparr>vx = rng k * 2 - 1, vy = rng (k + 1) * 2 - 1,
                vz = rng (k + 2) * 2 - 1, vw = rng (k + 3) * 2 - 1\<rparr>"

definition orientation_step ::
  "(nat \<Rightarrow> real) \<Rightarrow> buffer_attribute \<times> nat \<Rightarrow> nat \<Rightarrow> buffer_attribute \<times> nat" where
  "orientation_step rng ak i =
     (case ak of (a, k) \<Rightarrow>
        (let v = random_orientation rng k
         in (setXYZW a i (vx v) (vy v) (vz v) (vw v), k + 4)))"

definition fill_orientations ::
  "(nat \<Rightarrow> real) \<Rightarrow> buffer_attribute \<times> nat \<Rightarrow> buffer_attribute \<times> nat" where
  "fill_orientations rng ak = foldl (orientation_step rng) ak [0..<attr_count (fst ak)]"


section \<open>Particle system entity\<close>

text \<open>
  \<open>geometry.addAttribute(name, attribute)\<close> stores into the dictionary
  \<open>geometry.attributes\<close>. The mesh keeps the geometry and the two uniforms of its
  \<open>RawShaderMaterial\<close>; \<open>mesh_y\<close> is \<open>mesh.position.y\<close>.
\<close>

type_synonym geometry = "string \<rightharpoonup> buffer_attribute"

record mesh =
  mesh_geometry :: geometry
  uniform_time :: real
  uniform_sineTime :: real
  mesh_frustumCulled :: bool
  mesh_y :: real

record particle_system =
  ps_time :: real
  ps_mesh :: mesh

definition template_vertices :: "real list \<Rightarrow> buffer_attribute" where
  "template_vertices va =
     (let unit = 0.055;
          v0 = \<lparr>attr_array = va, attr_itemSize = 3\<rparr>;
          v1 = setXYZ v0 0 unit (- unit) 0;
          v2 = setXYZ v1 1 (- unit) unit 0
      in setXYZ v2 2 0 0 unit)"

text \<open>
  The constructor body, with the constant \<open>instances\<close> and the engine's typed-array limit
  as parameters. The result pairs the lengths of the typed arrays allocated so far with
  the outcome: the error thrown, or the new object and the number of draws taken from
  \<open>rng\<close>.
\<close>

definition ParticleSystem_build ::
  "int \<Rightarrow> int \<Rightarrow> (nat \<Rightarrow> real) \<Rightarrow> int list \<times> (error + particle_system \<times> nat)" where
  "ParticleSystem_build limit instances rng =
     (let triangles = 1 in
      case new_Float32Array limit (triangles * 3 * 3) of
        Inl e \<Rightarrow> ([], Inl e)
      | Inr va \<Rightarrow>
     (let vertices = template_vertices va;
          h1 = [triangles * 3 * 3] in
      case new_Float32Array limit (instances * 3) of
        Inl e \<Rightarrow> (h1, Inl e)
      | Inr oa \<Rightarrow>
     (let (offsets, k1) = fill_offsets rng (\<lparr>attr_array = oa, attr_itemSize = 3\<rparr>, 0);
          h2 = h1 @ [instances * 3] in
      case new_Float32Array limit (instances * 4) of
        Inl e \<Rightarrow> (h2, Inl e)
      | Inr ca \<Rightarrow>
     (let colors = fill_colors \<lparr>attr_array = ca, attr_itemSize = 4\<rparr>;
          h3 = h2 @ [instances * 4] in
      case new_Float32Array limit (instances * 1) of
        Inl e \<Rightarrow> (h3, Inl e)
      | Inr ta \<Rightarrow>
     (let (timeOffsets, k2) = fill_timeOffsets rng (\<lparr>attr_array = ta, attr_itemSize = 1\<rparr>, k1);
          h4 = h3 @ [instances * 1] in
      case new_Float32Array limit (instances * 4) of
        Inl e \<Rightarrow> (h4, Inl e)
      | Inr sa \<Rightarrow>
     (let (orientationsStart, k3) =
            fill_orientations rng (\<lparr>attr_array = sa, attr_itemSize = 4\<rparr>, k2);
          h5 = h4 @ [instances * 4] in
      case new_Float32Array limit (instances * 4) of
        Inl e \<Rightarrow> (h5, Inl e)
      | Inr ea \<Rightarrow>
     (let (orientationsEnd, k4) =
            fill_orientations rng (\<lparr>attr_array = ea, attr_itemSize = 4\<rparr>, k3);
          h6 = h5 @ [instances * 4];
          geometry = [''position'' \<mapsto> vertices, ''offset'' \<mapsto> offsets, ''color'' \<mapsto> colors,
                      ''timeOffset'' \<mapsto> timeOffsets, ''orientationStart'' \<mapsto> orientationsStart,
                      ''orientationEnd'' \<mapsto> orientationsEnd];
          m = \<lparr>mesh_geometry = geometry, uniform_time = 5.0, uniform_sineTime = 5.0,
               mesh_frustumCulled = False, mesh_y = 0\<rparr>
      in (h6, Inr (\<lparr>ps_time = 0.0, ps_mesh = m\<rparr>, k4)))))))))"

text \<open>
  \<open>new ParticleSystem()\<close> as the source has it: \<open>const instances = 2000\<close>, the only
  count the constructor ever uses. The limit is that of V8 on a 64-bit platform; the
  largest array asked for has 8000 elements, and every limit of at least 8000 gives the
  same result.
\<close>

definition typed_array_limit :: int where
  "typed_array_limit = 2 ^ 32 - 1"

definition ParticleSystem_new ::
  "(nat \<Rightarrow> real) \<Rightarrow> int list \<times> (error + particle_system \<times> nat)" where
  "ParticleSystem_new rng = ParticleSystem_build typed_array_limit 2000 rng"

text \<open>
  \<open>update(dt)\<close>: \<open>this.time += 0.0001; this.mesh.material.uniforms.time.value =
  Math.sin(this.time);\<close>
\<close>

definition update :: "real \<Rightarrow> particle_system \<Rightarrow> particle_system" where
  "update dt ps =
     (let ps1 = ps\<lparr>ps_time := ps_time ps + 0.0001\<rparr>
      in ps1\<lparr>ps_mesh := (ps_mesh ps1)\<lparr>uniform_time := sin (ps_time ps1)\<rparr>\<rparr>)"

text \<open>One \<open>update\<close> per frame, each with the frame's own \<open>dt\<close>.\<close>

fun updates :: "real list \<Rightarrow> particle_system \<Rightarrow> particle_system" where
  "updates [] ps = ps"
| "updates (dt # dts) ps = updates dts (update dt ps)"


section \<open>Observations on a constructed system\<close>

text \<open>
  Readers used to state properties of what the constructor returns: \<open>getXYZW\<close> is the
  attribute's \<open>getX\<close> .. \<open>getW\<close> at one index, the \<open>build_\<close> and \<open>built_\<close> functions
  project the outcome of \<open>ParticleSystem_build\<close>, the \<open>constructed_\<close> functions that of
  \<open>ParticleSystem_new\<close>, and \<open>built_unit\<close> is the unit-magnitude test with tolerance
  \<open>1e-5\<close>.
\<close>

definition getXYZW :: "buffer_attribute \<Rightarrow> nat \<Rightarrow> vector4" where
  "getXYZW a index =
     (let i = index * attr_itemSize a
      in \<lparr>vx = attr_array a ! i, vy = attr_array a ! (i + 1),
          vz = attr_array a ! (i + 2), vw = attr_array a ! (i + 3)\<rparr>)"

definition per_instance_attributes :: "string list" where
  "per_instance_attributes =
     [''offset'', ''color'', ''timeOffset'', ''orientationStart'', ''orientationEnd'']"

definition build_allocs :: "int \<Rightarrow> int \<Rightarrow> (nat \<Rightarrow> real) \<Rightarrow> int list" where
  "build_allocs limit N rng = fst (ParticleSystem_build limit N rng)"

definition build_error :: "int \<Rightarrow> int \<Rightarrow> (nat \<Rightarrow> real) \<Rightarrow> error option" where
  "build_error limit N rng =
     (case snd (ParticleSystem_build limit N rng) of Inl e \<Rightarrow> Some e | Inr r \<Rightarrow> None)"

definition built_attribute ::
  "int \<Rightarrow> int \<Rightarrow> (nat \<Rightarrow> real) \<Rightarrow> string \<Rightarrow> buffer_attribute option" where
  "built_attribute limit N rng name =
     (case snd (ParticleSystem_build limit N rng) of
        Inl e \<Rightarrow> None
      | Inr r \<Rightarrow> mesh_geometry (ps_mesh (fst r)) name)"

definition built_count :: "int \<Rightarrow> int \<Rightarrow> (nat \<Rightarrow> real) \<Rightarrow> string \<Rightarrow> nat option" where
  "built_count limit N rng name = map_option attr_count (built_attribute limit N rng name)"

definition built_magnitude ::
  "int \<Rightarrow> int \<Rightarrow> (nat \<Rightarrow> real) \<Rightarrow> string \<Rightarrow> nat \<Rightarrow> real option" where
  "built_magnitude limit N rng name i =
     map_option (\<lambda>a. vec_length (getXYZW a i)) (built_attribute limit N rng name)"

definition built_unit :: "int \<Rightarrow> int \<Rightarrow> (nat \<Rightarrow> real) \<Rightarrow> string \<Rightarrow> nat \<Rightarrow> bool" where
  "built_unit limit N rng name i =
     (case built_magnitude limit N rng name i of
        None \<Rightarrow> False
      | Some m \<Rightarrow> \<bar>m - 1\<bar> \<le> 1 / 100000)"

definition constructed_uniform_time :: "(nat \<Rightarrow> real) \<Rightarrow> real option" where
  "constructed_uniform_time rng =
     (case snd (ParticleSystem_new rng) of
        Inl e \<Rightarrow> None
      | Inr r \<Rightarrow> Some (uniform_time (ps_mesh (fst r))))"




text \<open>
  A count is valid for an engine when every array the constructor asks for, the vertex
  template of 9 elements and the largest per-instance array of \<open>4 N\<close>, is within the
  engine's limit.
\<close>

definition valid_count :: "int \<Rightarrow> int \<Rightarrow> bool" where
  "valid_count limit N \<longleftrightarrow> 0 < N \<and> 9 \<le> limit \<and> N * 4 \<le> limit"

text \<open>
  Four consecutive draws equal to \<open>0.5\<close>: the sampled 4-vector \<open>(2r - 1, ...)\<close> is zero.
  With \<open>n\<close> instances, start orientation \<open>i\<close> is sampled from the draws \<open>4 n + 4 i ..\<close>
  and end orientation \<open>i\<close> from the draws \<open>8 n + 4 i ..\<close>; \<open>zero_sample_free\<close> says that
  none of these samples is the zero vector.
\<close>

definition all_half :: "(nat \<Rightarrow> real) \<Rightarrow> nat \<Rightarrow> bool" where
  "all_half rng k \<longleftrightarrow>
     rng k = 1 / 2 \<and> rng (k + 1) = 1 / 2 \<and> rng (k + 2) = 1 / 2 \<and> rng (k + 3) = 1 / 2"

definition zero_sample_free :: "nat \<Rightarrow> (nat \<Rightarrow> real) \<Rightarrow> bool" where
  "zero_sample_free n rng \<longleftrightarrow>
     (\<forall>i<n. \<not> all_half rng (4 * n + 4 * i) \<and> \<not> all_half rng (8 * n + 4 * i))"

text \<open>
  Draw sequences and a particle system, as concrete inputs: two constant sequences, and
  the sequence of a linear congruential generator with an odd modulus, none of whose
  draws is \<open>0.5\<close>.
\<close>

definition rng_half :: "nat \<Rightarrow> real" where
  "rng_half k = 1 / 2"

definition rng_zero :: "nat \<Rightarrow> real" where
  "rng_zero k = 0"

definition rng_example :: "nat \<Rightarrow> real" where
  "rng_example k = real ((k * 7919 + 104729) mod 1000003) / 1000003"

definition ps_example :: particle_system where
  "ps_example =
     \<lparr>ps_time = 0,
      ps_mesh = \<lparr>mesh_geometry = Map.empty, uniform_time = 5, uniform_sineTime = 5,
                 mesh_frustumCulled = False, mesh_y = 4\<rparr>\<rparr>"

text \<open>Proof vocabulary: an attribute keeps its length and item size; a zero-filled one.\<close>

definition same_shape :: "buffer_attribute \<Rightarrow> buffer_attribute \<Rightarrow> bool" where
  "same_shape a b \<longleftrightarrow>
     length (attr_array a) = length (attr_array b) \<and> attr_itemSize a = attr_itemSize b"

definition zeros :: "int \<Rightarrow> nat \<Rightarrow> buffer_attribute" where
  "zeros n sz = \<lparr>attr_array = replicate (nat n) 0, attr_itemSize = sz\<rparr>"


section \<open>Host objects\<close>

text \<open>
  Container and window dimensions are non-negative integers, so the quotient
  \<open>width / height\<close> of JavaScript is a number, \<open>Infinity\<close> (height 0) or \<open>NaN\<close> (0 / 0).
\<close>

datatype jsnum = Num real | PosInf | NaN

definition js_div :: "nat \<Rightarrow> nat \<Rightarrow> jsnum" where
  "js_div w h = (if h = 0 then (if w = 0 then NaN else PosInf) else Num (real w / real h))"

text \<open>
  The calls a component makes on the renderer, the camera and the window, in the order
  made. \<open>RequestAnimationFrame\<close> carries the handle returned, \<open>CancelAnimationFrame\<close> the
  handle passed (\<open>None\<close> for \<open>undefined\<close>).
\<close>

datatype call =
    SetSize nat nat
  | UpdateProjectionMatrix
  | Render
  | RequestAnimationFrame nat
  | CancelAnimationFrame "nat option"
  | AddEventListener string
  | RemoveEventListener string

text \<open>
  What both components share: a counter for the identity of each object made by \<open>new\<close>,
  the window's list of scheduled animation frame callbacks (by handle, handles counting
  from 1), and the log of calls.
\<close>

record host =
  h_next :: nat
  h_raf_next :: nat
  h_pending :: "nat list"
  h_calls :: "call list"

definition log_call :: "call \<Rightarrow> 'a host_scheme \<Rightarrow> 'a host_scheme" where
  "log_call c s = s\<lparr>h_calls := h_calls s @ [c]\<rparr>"

text \<open>
  \<open>requestAnimationFrame(cb)\<close> appends the callback and returns its handle;
  \<open>cancelAnimationFrame(handle)\<close> removes the callback with that handle, does nothing when
  there is none or the handle is \<open>undefined\<close>, and never throws.
\<close>

definition requestAnimationFrame :: "'a host_scheme \<Rightarrow> nat \<times> 'a host_scheme" where
  "requestAnimationFrame s =
     (let handle = h_raf_next s
      in (handle, log_call (RequestAnimationFrame handle)
                    (s\<lparr>h_raf_next := handle + 1, h_pending := h_pending s @ [handle]\<rparr>)))"

definition cancelAnimationFrame :: "nat option \<Rightarrow> 'a host_scheme \<Rightarrow> 'a host_scheme" where
  "cancelAnimationFrame handle s =
     log_call (CancelAnimationFrame handle)
       (s\<lparr>h_pending := filter (\<lambda>i. Some i \<noteq> handle) (h_pending s)\<rparr>)"

text \<open>
  three.js \<open>PerspectiveCamera(fov, aspect, near, far)\<close>. The projection matrix is a
  function of these four (zoom and film offsets keep their defaults), so the model keeps
  in \<open>cam_projection\<close> the four values the matrix was last computed from; the constructor
  computes it once.
\<close>

record camera =
  cam_id :: nat
  cam_fov :: real
  cam_aspect :: jsnum
  cam_near :: real
  cam_far :: real
  cam_position :: "real \<times> real \<times> real"
  cam_projection :: "real \<times> jsnum \<times> real \<times> real"

definition updateProjectionMatrix :: "camera \<Rightarrow> camera" where
  "updateProjectionMatrix c =
     c\<lparr>cam_projection := (cam_fov c, cam_aspect c, cam_near c, cam_far c)\<rparr>"

definition new_PerspectiveCamera :: "nat \<Rightarrow> real \<Rightarrow> jsnum \<Rightarrow> real \<Rightarrow> real \<Rightarrow> camera" where
  "new_PerspectiveCamera oid fov aspect near far =
     updateProjectionMatrix
       \<lparr>cam_id = oid, cam_fov = fov, cam_aspect = aspect, cam_near = near, cam_far = far,
        cam_position = (0, 0, 0), cam_projection = (fov, aspect, near, far)\<rparr>"

text \<open>\<open>WebGLRenderer\<close>: a new canvas is 300 by 150; the pixel ratio starts at 1.\<close>

record renderer =
  rnd_id :: nat
  rnd_size :: "nat \<times> nat"
  rnd_pixelRatio :: real
  rnd_clearColor :: "nat option"

definition new_WebGLRenderer :: "nat \<Rightarrow> renderer" where
  "new_WebGLRenderer oid =
     \<lparr>rnd_id = oid, rnd_size = (300, 150), rnd_pixelRatio = 1, rnd_clearColor = None\<rparr>"

datatype light_kind = Ambient | Directional

record light =
  light_id :: nat
  light_kind :: light_kind
  light_color :: nat
  light_intensity :: real
  light_position :: "real \<times> real \<times> real"

text \<open>
  A scene holds its children in the order added: lights by value, a mesh by the identity
  of the object that owns it. \<open>scn_background\<close> is the identity of the \<open>Color\<close> assigned.
\<close>

datatype node = LightNode light | MeshNode nat

record scene =
  scn_id :: nat
  scn_children :: "node list"
  scn_background :: "nat option"

definition new_Scene :: "nat \<Rightarrow> scene" where
  "new_Scene oid = \<lparr>scn_id = oid, scn_children = [], scn_background = None\<rparr>"

definition scene_add :: "node \<Rightarrow> scene \<Rightarrow> scene" where
  "scene_add n sc = sc\<lparr>scn_children := scn_children sc @ [n]\<rparr>"

definition is_light :: "node \<Rightarrow> bool" where
  "is_light n = (case n of LightNode l \<Rightarrow> True | MeshNode m \<Rightarrow> False)"

definition bind_err :: "error + 'a \<Rightarrow> ('a \<Rightarrow> error + 'b) \<Rightarrow> error + 'b" where
  "bind_err r f = (case r of Inl e \<Rightarrow> Inl e | Inr x \<Rightarrow> f x)"


section \<open>RoboticsScene\<close>

datatype theme_id = Dark | Light

record theme =
  theme_id :: theme_id
  colorPrimary :: nat
  colorBackground :: nat

text \<open>The imported table \<open>theme\<close> of \<open>utils/Theme\<close>, read as \<open>theme.light\<close> and \<open>theme.dark\<close>.\<close>

record theme_table =
  tt_light :: theme
  tt_dark :: theme

record window =
  innerWidth :: nat
  innerHeight :: nat
  devicePixelRatio :: real

text \<open>
  The refs of the component (\<open>None\<close> is \<open>undefined\<close>), the children of its container (each
  canvas by the identity of its renderer), the number of \<open>resize\<close> listeners it has on the
  window, and the dependency values its effects last ran with.
\<close>

record robotics = host +
  rb_draws :: nat
  rb_width :: nat
  rb_height :: nat
  rb_scene :: "scene option"
  rb_camera :: "camera option"
  rb_renderer :: "renderer option"
  rb_canvases :: "nat list"
  rb_particles :: "(nat \<times> particle_system) option"
  rb_resize_listeners :: nat
  rb_dep_theme :: theme
  rb_dep_reduced :: bool

text \<open>The first render: \<open>useRef(window.innerWidth)\<close>, \<open>useRef(window.innerHeight)\<close>, \<open>useRef()\<close>.\<close>

definition robotics_init :: "window \<Rightarrow> theme \<Rightarrow> bool \<Rightarrow> robotics" where
  "robotics_init win th reduced =
     \<lparr>h_next = 0, h_raf_next = 1, h_pending = [], h_calls = [],
      rb_draws = 0, rb_width = innerWidth win, rb_height = innerHeight win,
      rb_scene = None, rb_camera = None, rb_renderer = None, rb_canvases = [],
      rb_particles = None, rb_resize_listeners = 0,
      rb_dep_theme = th, rb_dep_reduced = reduced\<rparr>"

text \<open>
  First effect, without a dependency list: \<open>particles.current = new ParticleSystem()\<close>.
  The draws continue the sequence \<open>rng\<close> where the component left it.
\<close>

definition robotics_particles_effect :: "(nat \<Rightarrow> real) \<Rightarrow> robotics \<Rightarrow> error + robotics" where
  "robotics_particles_effect rng s =
     (case snd (ParticleSystem_new (\<lambda>i. rng (rb_draws s + i))) of
        Inl e \<Rightarrow> Inl e
      | Inr r \<Rightarrow>
          Inr (s\<lparr>h_next := h_next s + 1, rb_draws := rb_draws s + snd r,
                 rb_particles := Some (h_next s, fst r)\<rparr>))"

text \<open>
  Second effect, on \<open>[currentTheme]\<close>: a new scene, camera and renderer, the canvas
  appended to the container, two lights, and the particle mesh moved to \<open>y = 4\<close> and added.
\<close>

definition robotics_scene_effect ::
  "window \<Rightarrow> theme_table \<Rightarrow> theme \<Rightarrow> robotics \<Rightarrow> error + robotics" where
  "robotics_scene_effect win themes currentTheme s =
     (let n = h_next s;
          sc = new_Scene n;
          cam = (new_PerspectiveCamera (n + 1) 60 (js_div (rb_width s) (rb_height s)) 0.1 60)
                  \<lparr>cam_position := (0, 1.7, 0.5)\<rparr>;
          rnd = (new_WebGLRenderer (n + 2))
                  \<lparr>rnd_pixelRatio := devicePixelRatio win,
                   rnd_clearColor := Some (colorBackground currentTheme),
                   rnd_size := (rb_width s, rb_height s)\<rparr>;
          ambientLight = \<lparr>light_id = n + 3, light_kind = Ambient,
                          light_color = colorPrimary currentTheme, light_intensity = 1.0,
                          light_position = (0, 0, 0)\<rparr>;
          directionalLight = \<lparr>light_id = n + 4, light_kind = Directional,
                              light_color = (if theme_id currentTheme = Dark
                                             then colorBackground (tt_light themes)
                                             else colorBackground (tt_dark themes)),
                              light_intensity = 1,
                              light_position = (- 1 / sqrt 3, - 1 / sqrt 3, - 1 / sqrt 3)\<rparr>;
          s1 = log_call (SetSize (rb_width s) (rb_height s))
                 (s\<lparr>h_next := n + 5, rb_camera := Some cam, rb_renderer := Some rnd,
                    rb_canvases := rb_canvases s @ [n + 2]\<rparr>)
      in case rb_particles s1 of
           None \<Rightarrow> Inl TypeError
         | Some (pid, ps) \<Rightarrow>
             Inr (s1\<lparr>rb_particles := Some (pid, ps\<lparr>ps_mesh := (ps_mesh ps)\<lparr>mesh_y := 4\<rparr>\<rparr>),
                     rb_scene := Some (scene_add (MeshNode pid)
                                   (scene_add (LightNode directionalLight)
                                     (scene_add (LightNode ambientLight) sc)))\<rparr>))"

text \<open>
  \<open>handleWindowResize\<close>, and the third effect, on \<open>[prefersReducedMotion]\<close>, which only
  registers it, and only when motion is not reduced.
\<close>

definition robotics_handleWindowResize :: "window \<Rightarrow> robotics \<Rightarrow> error + robotics" where
  "robotics_handleWindowResize win s =
     (let w = innerWidth win; h = innerHeight win
      in case rb_renderer s of
           None \<Rightarrow> Inl TypeError
         | Some rnd \<Rightarrow>
             (case rb_camera s of
                None \<Rightarrow> Inl TypeError
              | Some cam \<Rightarrow>
                  Inr (log_call UpdateProjectionMatrix
                        (log_call (SetSize w h)
                          (s\<lparr>rb_width := w, rb_height := h,
                             rb_renderer := Some (rnd\<lparr>rnd_size := (w, h)\<rparr>),
                             rb_camera := Some (updateProjectionMatrix
                                                 (cam\<lparr>cam_aspect := js_div w h\<rparr>))\<rparr>)))))"

definition robotics_resize_effect :: "bool \<Rightarrow> robotics \<Rightarrow> robotics" where
  "robotics_resize_effect prefersReducedMotion s =
     (if \<not> prefersReducedMotion
      then log_call (AddEventListener ''resize'')
             (s\<lparr>rb_resize_listeners := rb_resize_listeners s + 1\<rparr>)
      else s)"

text \<open>
  \<open>render\<close>: \<open>particles.current.update(delta)\<close>, \<open>renderer.current.render(scene.current,
  camera.current)\<close>, \<open>window.requestAnimationFrame(render)\<close>; and the fourth effect, on
  \<open>[prefersReducedMotion]\<close>, which calls it when motion is not reduced and does nothing
  otherwise. The handle of the request is dropped.
\<close>

definition robotics_render :: "real \<Rightarrow> robotics \<Rightarrow> error + robotics" where
  "robotics_render delta s =
     (case rb_particles s of
        None \<Rightarrow> Inl TypeError
      | Some (pid, ps) \<Rightarrow>
          (case rb_renderer s of
             None \<Rightarrow> Inl TypeError
           | Some rnd \<Rightarrow>
               Inr (snd (requestAnimationFrame
                      (log_call Render (s\<lparr>rb_particles := Some (pid, update delta ps)\<rparr>))))))"

definition robotics_render_effect :: "bool \<Rightarrow> real \<Rightarrow> robotics \<Rightarrow> error + robotics" where
  "robotics_render_effect prefersReducedMotion delta s =
     (if \<not> prefersReducedMotion then robotics_render delta s else Inr s)"

text \<open>
  Mounting runs the four effects in order. A later render with new values of
  \<open>currentTheme\<close> and \<open>prefersReducedMotion\<close> runs the effect without a dependency list
  again, and each other effect whose dependency changed; no effect returns a cleanup.
\<close>

definition robotics_mount ::
  "window \<Rightarrow> theme_table \<Rightarrow> theme \<Rightarrow> bool \<Rightarrow> (nat \<Rightarrow> real) \<Rightarrow> real \<Rightarrow> error + robotics" where
  "robotics_mount win themes th reduced rng delta =
     bind_err (robotics_particles_effect rng (robotics_init win th reduced)) (\<lambda>s1.
     bind_err (robotics_scene_effect win themes th s1) (\<lambda>s2.
     robotics_render_effect reduced delta (robotics_resize_effect reduced s2)))"

definition robotics_rerender ::
  "window \<Rightarrow> theme_table \<Rightarrow> theme \<Rightarrow> bool \<Rightarrow> (nat \<Rightarrow> real) \<Rightarrow> real \<Rightarrow> robotics
     \<Rightarrow> error + robotics" where
  "robotics_rerender win themes th reduced rng delta s =
     (let theme_changed = (th \<noteq> rb_dep_theme s);
          reduced_changed = (reduced \<noteq> rb_dep_reduced s);
          s0 = s\<lparr>rb_dep_theme := th, rb_dep_reduced := reduced\<rparr>
      in bind_err (robotics_particles_effect rng s0) (\<lambda>s1.
         bind_err (if theme_changed then robotics_scene_effect win themes th s1 else Inr s1)
           (\<lambda>s2.
         if reduced_changed
         then robotics_render_effect reduced delta (robotics_resize_effect reduced s2)
         else Inr s2)))"

text \<open>
  Window events after the mount. A \<open>resize\<close> event calls every registered listener; an
  animation frame takes the scheduled callbacks off the list and calls each, and every
  callback this component schedules is \<open>render\<close>.
\<close>

fun repeat_err :: "nat \<Rightarrow> ('a \<Rightarrow> error + 'a) \<Rightarrow> 'a \<Rightarrow> error + 'a" where
  "repeat_err 0 f s = Inr s"
| "repeat_err (Suc n) f s = bind_err (f s) (repeat_err n f)"



text \<open>What a mount leaves behind, for statements about it.\<close>

definition robotics_mount_calls ::
  "window \<Rightarrow> theme_table \<Rightarrow> theme \<Rightarrow> bool \<Rightarrow> (nat \<Rightarrow> real) \<Rightarrow> real \<Rightarrow> call list option" where
  "robotics_mount_calls win themes th reduced rng delta =
     (case robotics_mount win themes th reduced rng delta of
        Inl e \<Rightarrow> None
      | Inr s \<Rightarrow> Some (h_calls s))"

definition robotics_mount_pending ::
  "window \<Rightarrow> theme_table \<Rightarrow> theme \<Rightarrow> bool \<Rightarrow> (nat \<Rightarrow> real) \<Rightarrow> real \<Rightarrow> nat list option" where
  "robotics_mount_pending win themes th reduced rng delta =
     (case robotics_mount win themes th reduced rng delta of
        Inl e \<Rightarrow> None
      | Inr s \<Rightarrow> Some (h_pending s))"

text \<open>
  The identities of the camera, the renderer, the scene and the particle system (whose
  geometry buffers are its own), and the camera position.
\<close>

definition robotics_ids :: "robotics \<Rightarrow> nat option \<times> nat option \<times> nat option \<times> nat option" where
  "robotics_ids s =
     (map_option cam_id (rb_camera s), map_option rnd_id (rb_renderer s),
      map_option scn_id (rb_scene s), map_option fst (rb_particles s))"

definition window_example :: window where
  "window_example = \<lparr>innerWidth = 1024, innerHeight = 768, devicePixelRatio = 1\<rparr>"

definition theme_dark :: theme where
  "theme_dark = \<lparr>theme_id = Dark, colorPrimary = 0x00e5ff, colorBackground = 0x111111\<rparr>"

definition theme_light :: theme where
  "theme_light = \<lparr>theme_id = Light, colorPrimary = 0x000000, colorBackground = 0xf2f2f2\<rparr>"

definition themes_example :: theme_table where
  "themes_example = \<lparr>tt_light = theme_light, tt_dark = theme_dark\<rparr>"


section \<open>Portrait\<close>

text \<open>
  The values the component reads on a render: three fields of \<open>useTheme()\<close>, the motion
  preference and the viewport visibility of the canvas.
\<close>

record portrait_props =
  pp_colorWhite :: nat
  pp_themeId :: theme_id
  pp_rgbBackgroundLight :: nat
  pp_reduced :: bool
  pp_inViewport :: bool

text \<open>
  The refs; \<open>pt_resize_handler\<close> is the \<open>handleResize\<close> closure registered on the window,
  by the \<open>prefersReducedMotion\<close> it captured; \<open>pt_animation\<close> is the variable \<open>animation\<close>
  of the render effect's current run; \<open>pt_props\<close> are the values the effects last ran with.
\<close>

record portrait = host +
  pt_renderer :: "renderer option"
  pt_camera :: "camera option"
  pt_scene :: "scene option"
  pt_lights :: "light list option"
  pt_resize_handler :: "bool option"
  pt_mouse_listener :: bool
  pt_animation :: "nat option"
  pt_props :: portrait_props

definition portrait_init :: "portrait_props \<Rightarrow> portrait" where
  "portrait_init props =
     \<lparr>h_next = 0, h_raf_next = 1, h_pending = [], h_calls = [],
      pt_renderer = None, pt_camera = None, pt_scene = None, pt_lights = None,
      pt_resize_handler = None, pt_mouse_listener = False, pt_animation = None,
      pt_props = props\<rparr>"

text \<open>
  Init effect, on \<open>[]\<close>; \<open>dims\<close> is \<open>(clientWidth, clientHeight)\<close> of the container. The two
  loaders it starts complete later, if at all, and then touch only \<open>scene.environment\<close> and
  the scene's children; their completion is not part of the model.
\<close>

definition portrait_init_effect :: "nat \<times> nat \<Rightarrow> portrait \<Rightarrow> portrait" where
  "portrait_init_effect dims s =
     (let n = h_next s;
          rnd = (new_WebGLRenderer n)\<lparr>rnd_pixelRatio := 2, rnd_size := dims\<rparr>;
          cam = (new_PerspectiveCamera (n + 1) 45 (js_div (fst dims) (snd dims)) 0.1 800)
                  \<lparr>cam_position := (0, 0, 2)\<rparr>
      in log_call (SetSize (fst dims) (snd dims))
           (s\<lparr>h_next := n + 3, pt_renderer := Some rnd, pt_camera := Some cam,
              pt_scene := Some (new_Scene (n + 2))\<rparr>))"

text \<open>Lights effect, on \<open>[colorWhite, themeId, rgbBackgroundLight]\<close>.\<close>

definition portrait_lights_effect :: "portrait_props \<Rightarrow> portrait \<Rightarrow> error + portrait" where
  "portrait_lights_effect props s =
     (let n = h_next s;
          ambientLight = \<lparr>light_id = n, light_kind = Ambient,
                          light_color = pp_colorWhite props, light_intensity = 0.8,
                          light_position = (0, 0, 0)\<rparr>;
          dirLight = \<lparr>light_id = n + 1, light_kind = Directional,
                      light_color = pp_colorWhite props,
                      light_intensity = (if pp_themeId props = Light then 1.6 else 0.8),
                      light_position = (30, 20, 32)\<rparr>
      in case pt_scene s of
           None \<Rightarrow> Inl TypeError
         | Some sc \<Rightarrow>
             Inr (s\<lparr>h_next := n + 3, pt_lights := Some [ambientLight, dirLight],
                    pt_scene := Some (scene_add (LightNode dirLight)
                                  (scene_add (LightNode ambientLight)
                                    (sc\<lparr>scn_background := Some (n + 2)\<rparr>)))\<rparr>))"

text \<open>
  Modelled from the spec: \<open>removeLights\<close> of \<open>utils/three\<close> is not among the sources. The
  specification has a theme change "remove and recreate lights only": the lights passed
  are taken out of the scene, and nothing else changes.
\<close>

definition removeLights :: "light list \<Rightarrow> scene \<Rightarrow> scene" where
  "removeLights ls sc =
     sc\<lparr>scn_children := filter (\<lambda>n. n \<notin> set (map LightNode ls)) (scn_children sc)\<rparr>"

definition portrait_lights_cleanup :: "portrait \<Rightarrow> error + portrait" where
  "portrait_lights_cleanup s =
     (case pt_lights s of
        None \<Rightarrow> Inl TypeError
      | Some ls \<Rightarrow>
          (case pt_scene s of
             None \<Rightarrow> Inl TypeError
           | Some sc \<Rightarrow> Inr (s\<lparr>pt_scene := Some (removeLights ls sc)\<rparr>)))"

text \<open>
  \<open>handleResize\<close>, and the resize effect, on \<open>[prefersReducedMotion]\<close>: it registers the
  handler and calls it at once; its cleanup removes the handler.
\<close>

definition portrait_handleResize :: "bool \<Rightarrow> nat \<times> nat \<Rightarrow> portrait \<Rightarrow> error + portrait" where
  "portrait_handleResize prefersReducedMotion dims s =
     (case pt_renderer s of
        None \<Rightarrow> Inl TypeError
      | Some rnd \<Rightarrow>
          (case pt_camera s of
             None \<Rightarrow> Inl TypeError
           | Some cam \<Rightarrow>
               (let s1 = log_call UpdateProjectionMatrix
                           (log_call (SetSize (fst dims) (snd dims))
                             (s\<lparr>pt_renderer := Some (rnd\<lparr>rnd_size := dims\<rparr>),
                                pt_camera := Some (updateProjectionMatrix
                                   (cam\<lparr>cam_aspect := js_div (fst dims) (snd dims)\<rparr>))\<rparr>))
                in Inr (if prefersReducedMotion then log_call Render s1 else s1))))"

definition portrait_resize_effect :: "bool \<Rightarrow> nat \<times> nat \<Rightarrow> portrait \<Rightarrow> error + portrait" where
  "portrait_resize_effect prefersReducedMotion dims s =
     portrait_handleResize prefersReducedMotion dims
       (log_call (AddEventListener ''resize'')
         (s\<lparr>pt_resize_handler := Some prefersReducedMotion\<rparr>))"

definition portrait_resize_cleanup :: "portrait \<Rightarrow> portrait" where
  "portrait_resize_cleanup s =
     log_call (RemoveEventListener ''resize'') (s\<lparr>pt_resize_handler := None\<rparr>)"

text \<open>
  Pointer effect, on \<open>[isInViewport, prefersReducedMotion]\<close>: only the registration of
  \<open>onMouseMove\<close> is modelled; the handler drives a spring that writes \<open>scene.rotation\<close>.
\<close>

definition portrait_mouse_effect :: "bool \<Rightarrow> bool \<Rightarrow> portrait \<Rightarrow> portrait" where
  "portrait_mouse_effect isInViewport prefersReducedMotion s =
     (if isInViewport \<and> \<not> prefersReducedMotion
      then log_call (AddEventListener ''mousemove'') (s\<lparr>pt_mouse_listener := True\<rparr>)
      else s)"

definition portrait_mouse_cleanup :: "portrait \<Rightarrow> portrait" where
  "portrait_mouse_cleanup s =
     log_call (RemoveEventListener ''mousemove'') (s\<lparr>pt_mouse_listener := False\<rparr>)"

text \<open>
  Render effect, on \<open>[isInViewport, prefersReducedMotion]\<close>. \<open>animate\<close> stores the handle
  of the frame it requests in \<open>animation\<close> and renders; the effect starts it when motion
  is not reduced and the canvas is in the viewport, and renders once otherwise; the
  cleanup is \<open>cancelAnimationFrame(animation)\<close>.
\<close>

definition portrait_render_call :: "portrait \<Rightarrow> error + portrait" where
  "portrait_render_call s =
     (case pt_renderer s of
        None \<Rightarrow> Inl TypeError
      | Some rnd \<Rightarrow> Inr (log_call Render s))"

definition portrait_animate :: "portrait \<Rightarrow> error + portrait" where
  "portrait_animate s =
     (case requestAnimationFrame s of
        (handle, s1) \<Rightarrow> portrait_render_call (s1\<lparr>pt_animation := Some handle\<rparr>))"

definition portrait_render_effect :: "bool \<Rightarrow> bool \<Rightarrow> portrait \<Rightarrow> error + portrait" where
  "portrait_render_effect isInViewport prefersReducedMotion s =
     (let s0 = s\<lparr>pt_animation := None\<rparr>
      in if \<not> prefersReducedMotion \<and> isInViewport
         then portrait_animate s0
         else portrait_render_call s0)"

definition portrait_render_cleanup :: "portrait \<Rightarrow> portrait" where
  "portrait_render_cleanup s = cancelAnimationFrame (pt_animation s) s"

text \<open>
  Mounting runs the five effects in order. A later render runs, for each effect whose
  dependencies changed, first its cleanup (all cleanups before any effect) and then the
  effect, in the order of declaration; the init effect never runs again.
\<close>

definition portrait_mount :: "portrait_props \<Rightarrow> nat \<times> nat \<Rightarrow> error + portrait" where
  "portrait_mount props dims =
     bind_err (portrait_lights_effect props (portrait_init_effect dims (portrait_init props)))
       (\<lambda>s2.
     bind_err (portrait_resize_effect (pp_reduced props) dims s2) (\<lambda>s3.
     portrait_render_effect (pp_inViewport props) (pp_reduced props)
       (portrait_mouse_effect (pp_inViewport props) (pp_reduced props) s3)))"

definition portrait_rerender :: "portrait_props \<Rightarrow> nat \<times> nat \<Rightarrow> portrait \<Rightarrow> error + portrait" where
  "portrait_rerender props dims s =
     (let old = pt_props s;
          lights_changed = (pp_colorWhite props \<noteq> pp_colorWhite old
                            \<or> pp_themeId props \<noteq> pp_themeId old
                            \<or> pp_rgbBackgroundLight props \<noteq> pp_rgbBackgroundLight old);
          reduced_changed = (pp_reduced props \<noteq> pp_reduced old);
          view_changed = (pp_inViewport props \<noteq> pp_inViewport old \<or> reduced_changed);
          s0 = s\<lparr>pt_props := props\<rparr>
      in bind_err (if lights_changed then portrait_lights_cleanup s0 else Inr s0) (\<lambda>c1.
         let c2 = (if reduced_changed then portrait_resize_cleanup c1 else c1);
             c3 = (if view_changed then portrait_mouse_cleanup c2 else c2);
             c4 = (if view_changed then portrait_render_cleanup c3 else c3)
         in bind_err (if lights_changed then portrait_lights_effect props c4 else Inr c4)
              (\<lambda>e2.
            bind_err (if reduced_changed
                      then portrait_resize_effect (pp_reduced props) dims e2 else Inr e2)
              (\<lambda>e3.
            if view_changed
            then portrait_render_effect (pp_inViewport props) (pp_reduced props)
                   (portrait_mouse_effect (pp_inViewport props) (pp_reduced props) e3)
            else Inr e3))))"

text \<open>
  What happens to a mounted component: a render with new values, a \<open>resize\<close> event of the
  window (the container then has the dimensions given), an animation frame. A frame takes
  the scheduled callbacks off the list and calls each; every callback is \<open>animate\<close>.
\<close>

datatype portrait_event =
    Rerender portrait_props "nat \<times> nat"
  | ResizeEvent "nat \<times> nat"
  | Frame

definition portrait_frame :: "portrait \<Rightarrow> error + portrait" where
  "portrait_frame s = repeat_err (length (h_pending s)) portrait_animate (s\<lparr>h_pending := []\<rparr>)"

definition portrait_step :: "portrait_event \<Rightarrow> portrait \<Rightarrow> error + portrait" where
  "portrait_step ev s =
     (case ev of
        Rerender props dims \<Rightarrow> portrait_rerender props dims s
      | ResizeEvent dims \<Rightarrow>
          (case pt_resize_handler s of
             None \<Rightarrow> Inr s
           | Some reduced \<Rightarrow> portrait_handleResize reduced dims s)
      | Frame \<Rightarrow> portrait_frame s)"

fun portrait_run :: "portrait_event list \<Rightarrow> portrait \<Rightarrow> error + portrait" where
  "portrait_run [] s = Inr s"
| "portrait_run (ev # evs) s = bind_err (portrait_step ev s) (portrait_run evs)"

definition portrait_session ::
  "portrait_props \<Rightarrow> nat \<times> nat \<Rightarrow> portrait_event list \<Rightarrow> error + portrait" where
  "portrait_session props dims evs = bind_err (portrait_mount props dims) (portrait_run evs)"



text \<open>Projections of a session's outcome, and concrete inputs.\<close>

definition session_calls ::
  "portrait_props \<Rightarrow> nat \<times> nat \<Rightarrow> portrait_event list \<Rightarrow> call list option" where
  "session_calls props dims evs =
     (case portrait_session props dims evs of Inl e \<Rightarrow> None | Inr s \<Rightarrow> Some (h_calls s))"


definition session_stop_twice_pending ::
  "portrait_props \<Rightarrow> nat \<times> nat \<Rightarrow> portrait_event list \<Rightarrow> nat list option" where
  "session_stop_twice_pending props dims evs =
     (case portrait_session props dims evs of
        Inl e \<Rightarrow> None
      | Inr s \<Rightarrow> Some (h_pending (portrait_render_cleanup (portrait_render_cleanup s))))"



section \<open>Observations on the components\<close>

text \<open>
  \<open>updateProjectionMatrix\<close> is called by the two resize routines and nowhere else in the
  components, so the number of its calls in a log is the number of times a resize routine
  ran; \<open>render_calls\<close> counts the \<open>render\<close> calls of a log.
\<close>

definition resize_calls :: "call list \<Rightarrow> nat" where
  "resize_calls cs = count_list cs UpdateProjectionMatrix"


text \<open>
  The renderer's size, the camera's aspect and the aspect its projection matrix was
  computed from.
\<close>

definition view_of ::
  "renderer option \<Rightarrow> camera option \<Rightarrow> (nat \<times> nat) option \<times> jsnum option \<times> jsnum option" where
  "view_of r c =
     (map_option rnd_size r, map_option cam_aspect c,
      map_option (\<lambda>cam. fst (snd (cam_projection cam))) c)"

text \<open>
  A mount of \<open>RoboticsScene\<close> followed by a render with another theme: the identities
  before, the identities after, the canvases in the container after, and the camera
  position before and after.
\<close>

definition robotics_theme_change ::
  "window \<Rightarrow> theme_table \<Rightarrow> theme \<Rightarrow> theme \<Rightarrow> bool \<Rightarrow> (nat \<Rightarrow> real) \<Rightarrow> real
     \<Rightarrow> error + ((nat option \<times> nat option \<times> nat option \<times> nat option)
                  \<times> (nat option \<times> nat option \<times> nat option \<times> nat option)
                  \<times> nat list
                  \<times> (real \<times> real \<times> real) option \<times> (real \<times> real \<times> real) option)" where
  "robotics_theme_change win themes th th' reduced rng delta =
     bind_err (robotics_mount win themes th reduced rng delta) (\<lambda>s.
     bind_err (robotics_rerender win themes th' reduced rng delta s) (\<lambda>s'.
     Inr (robotics_ids s, robotics_ids s', rb_canvases s',
          map_option cam_position (rb_camera s), map_option cam_position (rb_camera s'))))"


text \<open>
  Proof vocabulary for \<open>Portrait\<close>: every ref is set; the scheduled callbacks are none,
  or the one whose handle \<open>animation\<close> holds; motion is reduced, nothing is scheduled and
  no frame was ever requested.
\<close>

definition refs_set :: "portrait \<Rightarrow> bool" where
  "refs_set s \<longleftrightarrow>
     pt_renderer s \<noteq> None \<and> pt_camera s \<noteq> None \<and> pt_scene s \<noteq> None \<and> pt_lights s \<noteq> None"

definition own_frame :: "portrait \<Rightarrow> bool" where
  "own_frame s =
     (case h_pending s of [] \<Rightarrow> True | [i] \<Rightarrow> pt_animation s = Some i | _ \<Rightarrow> False)"



section \<open>Properties of single-precision rounding\<close>

lemma binade_eq:
  assumes "x \<noteq> 0"
  shows "binade x = k \<longleftrightarrow> 2 powi k \<le> \<bar>x\<bar> \<and> \<bar>x\<bar> < 2 powi (k + 1)"
proof -
  have "\<bar>x\<bar> > 0" using assms by simp
  then have "\<lfloor>log 2 \<bar>x\<bar>\<rfloor> = k \<longleftrightarrow> 2 powr (real_of_int k) \<le> \<bar>x\<bar> \<and> \<bar>x\<bar> < 2 powr (real_of_int k + 1)"
    using floor_log_eq_powr_iff[of "\<bar>x\<bar>" 2 k] by simp
  moreover have "(2::real) powr (real_of_int k) = 2 powi k"
    by (simp add: powr_real_of_int')
  moreover have "(2::real) powr (real_of_int k + 1) = 2 powi (k + 1)"
    using powr_real_of_int'[of 2 "k + 1"] by simp
  ultimately show ?thesis by (simp add: binade_def)
qed

lemma binade_bounds:
  assumes "x \<noteq> 0"
  shows "2 powi (binade x) \<le> \<bar>x\<bar>" and "\<bar>x\<bar> < 2 powi (binade x + 1)"
  using binade_eq[OF assms, of "binade x"] by simp_all

lemma binade_less:
  assumes "x \<noteq> 0" "\<bar>x\<bar> < 2 powi j"
  shows "binade x < j"
proof -
  have "(2::real) powi (binade x) < 2 powi j"
    using binade_bounds(1)[OF assms(1)] assms(2) by linarith
  then show ?thesis
    by (smt (verit) power_int_increasing)
qed

lemma binade_ge:
  assumes "x \<noteq> 0" "2 powi j \<le> \<bar>x\<bar>"
  shows "j \<le> binade x"
proof -
  have "(2::real) powi j < 2 powi (binade x + 1)"
    using binade_bounds(2)[OF assms(1)] assms(2) by linarith
  then have "j < binade x + 1"
    by (smt (verit) power_int_increasing)
  then show ?thesis by simp
qed

lemma rne_of_int [simp]: "rne (of_int n) = n"
  by (simp add: rne_def)

lemma rne_error: "\<bar>of_int (rne y) - y\<bar> \<le> 1 / 2"
proof -
  have "of_int \<lfloor>y\<rfloor> \<le> y" "y < of_int \<lfloor>y\<rfloor> + 1" by linarith+
  then show ?thesis
    by (auto simp: rne_def Let_def)
qed

lemma rne_floor: "\<lfloor>y\<rfloor> \<le> rne y" "rne y \<le> \<lfloor>y\<rfloor> + 1"
  by (simp_all add: rne_def Let_def)

lemma rne_le: "y \<le> of_int n \<Longrightarrow> rne y \<le> n"
proof -
  assume a: "y \<le> of_int n"
  show ?thesis
  proof (cases "y = of_int n")
    case True
    then show ?thesis by simp
  next
    case False
    then have "y < of_int n" using a by simp
    then have "\<lfloor>y\<rfloor> < n" by (simp add: floor_less_iff)
    then show ?thesis using rne_floor(2)[of y] by linarith
  qed
qed

lemma rne_ge: "of_int n \<le> y \<Longrightarrow> n \<le> rne y"
proof -
  assume "of_int n \<le> y"
  then have "n \<le> \<lfloor>y\<rfloor>" by (simp add: le_floor_iff)
  then show ?thesis using rne_floor(1)[of y] by linarith
qed

lemma rne_le_half:
  assumes "y < of_int n + 1 / 2"
  shows "rne y \<le> n"
proof -
  have "of_int (rne y) < (of_int n :: real) + 1"
    using rne_error[of y] assms by linarith
  then have "of_int (rne y) < (of_int (n + 1) :: real)" by simp
  then have "rne y < n + 1" by (simp only: of_int_less_iff)
  then show ?thesis by simp
qed

lemma rne_ge_half:
  assumes "of_int n - 1 / 2 < y"
  shows "n \<le> rne y"
proof -
  have "(of_int n :: real) - 1 < of_int (rne y)"
    using rne_error[of y] assms by linarith
  then have "(of_int (n - 1) :: real) < of_int (rne y)" by simp
  then have "n - 1 < rne y" by (simp only: of_int_less_iff)
  then show ?thesis by simp
qed

lemma round32_unit_interval:
  assumes "0 \<le> v" "v < 1"
  shows "\<exists>r. round32 v = Some r \<and> 0 \<le> r \<and> r \<le> 1"
proof (cases "v = 0")
  case True
  then show ?thesis by (simp add: round32_def)
next
  case False
  define e where "e = ulp_exponent v"
  define m where "m = rne (v / 2 powi e)"
  have vpos: "0 < v" using assms(1) False by simp
  have "binade v < 0" using binade_less[of v 0] False assms by simp
  then have e_le: "e \<le> - 24" and e_ge: "- 149 \<le> e"
    by (simp_all add: e_def ulp_exponent_def)
  have p: "(0::real) < 2 powi e" by simp
  have "0 \<le> v / 2 powi e" using vpos p by simp
  then have m0: "0 \<le> m" using rne_ge[of 0 "v / 2 powi e"] by (simp add: m_def)
  have inv: "1 / 2 powi e = (of_int (2 ^ nat (- e)) :: real)"
    using e_le by (simp add: power_int_def field_simps)
  have "v / 2 powi e \<le> 1 / 2 powi e"
    using assms(2) p by (simp add: divide_right_mono)
  then have "v / 2 powi e \<le> of_int (2 ^ nat (- e))" using inv by simp
  then have "m \<le> 2 ^ nat (- e)" unfolding m_def by (rule rne_le)
  then have "(of_int m :: real) \<le> of_int (2 ^ nat (- e))" by (simp only: of_int_le_iff)
  then have "(of_int m :: real) \<le> 1 / 2 powi e" using inv by simp
  then have r1: "of_int m * 2 powi e \<le> (1::real)"
    using p by (simp add: pos_le_divide_eq)
  have r0: "(0::real) \<le> of_int m * 2 powi e" using m0 by simp
  have "\<not> max_float32 < \<bar>of_int m * 2 powi e\<bar>"
    using r0 r1 by (simp add: max_float32_def)
  then have "round32 v = Some (of_int m * 2 powi e)"
    using False by (simp add: round32_def Let_def e_def m_def)
  then show ?thesis using r0 r1 by simp
qed

lemma ulp_exponent_ge: "- 149 \<le> ulp_exponent x"
  by (simp add: ulp_exponent_def)

lemma scaled_int:
  assumes "e' \<le> e"
  shows "of_int m * 2 powi e / 2 powi e' = (of_int (m * 2 ^ nat (e - e')) :: real)"
proof -
  have "(2::real) powi e = 2 powi (e - e') * 2 powi e'"
    using power_int_add[of "2::real" "e - e'" e'] by simp
  moreover have "(2::real) powi (e - e') = 2 ^ nat (e - e')"
    using assms by (simp add: power_int_def)
  ultimately show ?thesis by simp
qed

lemma round32_scaled_int:
  assumes "x \<noteq> 0" "x = of_int m * 2 powi e" "ulp_exponent x \<le> e" "\<bar>x\<bar> \<le> max_float32"
  shows "round32 x = Some x"
proof -
  define e' where "e' = ulp_exponent x"
  have "x / 2 powi e' = of_int (m * 2 ^ nat (e - e'))"
    using scaled_int[of e' e m] assms(2,3) by (simp add: e'_def)
  then have "of_int (rne (x / 2 powi e')) * 2 powi e' = x / 2 powi e' * 2 powi e'"
    by (simp only: rne_of_int)
  then have "of_int (rne (x / 2 powi e')) * 2 powi e' = x" by simp
  then show ?thesis
    using assms(1,4) by (simp add: round32_def Let_def e'_def)
qed

lemma mantissa_bound:
  assumes "x \<noteq> 0"
  shows "\<bar>rne (x / 2 powi (ulp_exponent x))\<bar> \<le> 2 ^ 24"
proof -
  define e where "e = ulp_exponent x"
  have "binade x - 23 \<le> e" by (simp add: e_def ulp_exponent_def)
  then have "binade x + 1 \<le> e + 24" by simp
  then have "(2::real) powi (binade x + 1) \<le> 2 powi (e + 24)"
    by (intro power_int_increasing) simp_all
  then have "\<bar>x\<bar> < 2 powi (e + 24)"
    using binade_bounds(2)[OF assms] by linarith
  moreover have "(2::real) powi (e + 24) = 2 ^ 24 * 2 powi e"
    using power_int_add[of "2::real" 24 e] by (simp add: add.commute)
  ultimately have "\<bar>x\<bar> / 2 powi e < 2 ^ 24"
    by (simp add: pos_divide_less_eq)
  then have b: "\<bar>x / 2 powi e\<bar> < 2 ^ 24" by simp
  have "x / 2 powi e \<le> 2 ^ 24" using b abs_ge_self[of "x / 2 powi e"] by linarith
  then have "x / 2 powi e \<le> of_int (2 ^ 24)" by simp
  then have u: "rne (x / 2 powi e) \<le> 2 ^ 24" by (rule rne_le)
  have "- (2 ^ 24) \<le> x / 2 powi e" using b abs_ge_minus_self[of "x / 2 powi e"] by linarith
  then have "of_int (- (2 ^ 24)) \<le> x / 2 powi e" by simp
  then have l: "- (2 ^ 24) \<le> rne (x / 2 powi e)" by (rule rne_ge)
  show ?thesis using u l by (simp add: e_def abs_le_iff)
qed

lemma round32_idem:
  assumes "round32 x = Some r"
  shows "round32 r = Some r"
proof (cases "x = 0 \<or> r = 0")
  case True
  then show ?thesis using assms by (auto simp: round32_def)
next
  case False
  define e where "e = ulp_exponent x"
  define m where "m = rne (x / 2 powi e)"
  have r: "r = of_int m * 2 powi e" and fin: "\<bar>r\<bar> \<le> max_float32"
    using assms False by (auto simp: round32_def Let_def e_def m_def split: if_splits)
  have mb: "\<bar>m\<bar> \<le> 2 ^ 24" using mantissa_bound[of x] False by (simp add: m_def e_def)
  have e149: "- 149 \<le> e" by (simp add: e_def ulp_exponent_ge)
  show ?thesis
  proof (cases "\<bar>m\<bar> = 2 ^ 24")
    case True
    then have "\<bar>r\<bar> = 2 ^ 24 * 2 powi e" by (simp add: r abs_mult)
    also have "\<dots> = 2 powi (e + 24)"
      using power_int_add[of "2::real" 24 e] by (simp add: add.commute)
    finally have ar: "\<bar>r\<bar> = 2 powi (e + 24)" .
    have "binade r = e + 24"
      using False ar binade_eq[of r "e + 24"]
      by (simp add: power_int_strict_increasing)
    then have ue: "ulp_exponent r = e + 1"
      using e149 by (simp add: ulp_exponent_def)
    have "m = 2 ^ 24 \<or> m = - (2 ^ 24)" using True by linarith
    then have "even m" by auto
    then obtain h where h: "m = 2 * h" by (elim evenE)
    have "(2::real) powi (e + 1) = 2 * 2 powi e"
      using power_int_add[of "2::real" 1 e] by (simp add: add.commute)
    then have "r = of_int h * 2 powi (e + 1)" by (simp add: r h)
    then show ?thesis
      using round32_scaled_int[of r h "e + 1"] False fin ue by simp
  next
    case False2: False
    then have "\<bar>m\<bar> < 2 ^ 24" using mb by simp
    then have "\<bar>of_int m :: real\<bar> < 2 ^ 24"
      by (metis of_int_abs of_int_less_iff of_int_numeral of_int_power)
    then have "\<bar>r\<bar> < 2 ^ 24 * 2 powi e"
      by (simp add: r abs_mult)
    also have "\<dots> = 2 powi (e + 24)"
      using power_int_add[of "2::real" 24 e] by (simp add: add.commute)
    finally have "\<bar>r\<bar> < 2 powi (e + 24)" .
    then have "binade r < e + 24" using binade_less[of r "e + 24"] False by simp
    then have "ulp_exponent r \<le> e"
      using e149 by (simp add: ulp_exponent_def)
    then show ?thesis
      using round32_scaled_int[of r m e] False r fin by simp
  qed
qed

lemma round32_small_int:
  assumes "\<bar>n\<bar> \<le> 2 ^ 23"
  shows "round32 (of_int n) = Some (of_int n)"
proof (cases "n = 0")
  case True
  then show ?thesis by (simp add: round32_def)
next
  case False
  have "\<bar>of_int n :: real\<bar> \<le> 2 ^ 23"
    using assms by (metis of_int_abs of_int_le_iff of_int_numeral of_int_power)
  then have b: "\<bar>of_int n :: real\<bar> < 2 powi 24" by simp
  have "binade (of_int n) < 24" using binade_less[of "of_int n" 24] False b by simp
  then have "ulp_exponent (of_int n) \<le> 0" by (simp add: ulp_exponent_def)
  moreover have "\<bar>of_int n :: real\<bar> \<le> max_float32"
    using \<open>\<bar>of_int n :: real\<bar> \<le> 2 ^ 23\<close> by (simp add: max_float32_def)
  ultimately show ?thesis
    using round32_scaled_int[of "of_int n" n 0] False by simp
qed

lemma float32_floor:
  assumes "is_float32 s"
  shows "round32 (of_int \<lfloor>s\<rfloor>) = Some (of_int \<lfloor>s\<rfloor>)"
proof (cases "\<bar>s\<bar> < 2 ^ 23")
  case True
  have "of_int \<lfloor>s\<rfloor> \<le> s" "s < of_int \<lfloor>s\<rfloor> + 1" by linarith+
  moreover have "s < 2 ^ 23" "- (2 ^ 23) < s" using True by (simp_all add: abs_less_iff)
  ultimately have "(of_int \<lfloor>s\<rfloor> :: real) < 2 ^ 23" "- (2 ^ 23) - 1 < (of_int \<lfloor>s\<rfloor> :: real)"
    by linarith+
  then have "(of_int \<lfloor>s\<rfloor> :: real) < of_int (2 ^ 23)"
    "(of_int (- (2 ^ 23) - 1) :: real) < of_int \<lfloor>s\<rfloor>" by simp_all
  then have "\<lfloor>s\<rfloor> < 2 ^ 23" "- (2 ^ 23) - 1 < \<lfloor>s\<rfloor>" by (simp_all only: of_int_less_iff)
  then have "\<bar>\<lfloor>s\<rfloor>\<bar> \<le> 2 ^ 23" by linarith
  then show ?thesis by (rule round32_small_int)
next
  case False
  then have big: "2 powi 23 \<le> \<bar>s\<bar>" by simp
  then have s0: "s \<noteq> 0" by auto
  define e where "e = ulp_exponent s"
  have "23 \<le> binade s" using binade_ge[OF s0 big] .
  then have e0: "0 \<le> e" by (simp add: e_def ulp_exponent_def)
  have "s = of_int (rne (s / 2 powi e)) * 2 powi e"
    using assms s0 by (auto simp: is_float32_def round32_def Let_def e_def split: if_splits)
  also have "\<dots> = of_int (rne (s / 2 powi e) * 2 ^ nat e)"
    using e0 by (simp add: power_int_def)
  finally have "s = of_int (rne (s / 2 powi e) * 2 ^ nat e)" .
  then have fl: "of_int \<lfloor>s\<rfloor> = s" by (metis floor_of_int)
  have "round32 s = Some s" using assms by (simp add: is_float32_def)
  then show ?thesis by (simp only: fl)
qed

lemma max_float32_powi: "max_float32 = (2 ^ 24 - 1) * 2 powi 104"
  by (simp add: max_float32_def)

lemma round32_no_overflow:
  assumes "\<bar>x\<bar> < max_float32 + 2 ^ 103"
  shows "round32 x \<noteq> None"
proof (cases "x = 0")
  case True
  then show ?thesis by (simp add: round32_def)
next
  case False
  define e where "e = ulp_exponent x"
  define m where "m = rne (x / 2 powi e)"
  have p: "(0::real) < 2 powi e" by simp
  have "\<bar>x\<bar> < 2 powi 128" using assms by (simp add: max_float32_def)
  then have k: "binade x < 128" using binade_less[OF False] by simp
  have err: "\<bar>of_int m - x / 2 powi e\<bar> \<le> 1 / 2" unfolding m_def by (rule rne_error)
  have "\<bar>of_int m * 2 powi e\<bar> \<le> max_float32"
  proof (cases "binade x = 127")
    case True
    then have e104: "e = 104" by (simp add: e_def ulp_exponent_def)
    have "\<bar>x\<bar> / 2 ^ 104 < 2 ^ 24 - 1 / 2"
      using assms by (simp add: max_float32_def field_simps)
    then have b: "\<bar>x / 2 ^ 104\<bar> < 2 ^ 24 - 1 / 2" by simp
    have "x / 2 ^ 104 < of_int (2 ^ 24 - 1) + 1 / 2"
      using b abs_ge_self[of "x / 2 ^ 104"] by simp
    then have u: "m \<le> 2 ^ 24 - 1"
      using rne_le_half[of "x / 2 ^ 104" "2 ^ 24 - 1"] by (simp add: m_def e104)
    have "of_int (- (2 ^ 24 - 1)) - 1 / 2 < x / 2 ^ 104"
      using b abs_ge_minus_self[of "x / 2 ^ 104"] by simp
    then have l: "- (2 ^ 24 - 1) \<le> m"
      using rne_ge_half[of "- (2 ^ 24 - 1)" "x / 2 ^ 104"] by (simp add: m_def e104)
    have "\<bar>m\<bar> \<le> 2 ^ 24 - 1" using u l by (simp add: abs_le_iff)
    then have "\<bar>of_int m :: real\<bar> \<le> of_int (2 ^ 24 - 1)"
      by (metis of_int_abs of_int_le_iff)
    then have "\<bar>of_int m :: real\<bar> * 2 ^ 104 \<le> (2 ^ 24 - 1) * 2 ^ 104"
      by (intro mult_right_mono) simp_all
    then show ?thesis by (simp add: e104 max_float32_def abs_mult)
  next
    case False
    then have "binade x \<le> 126" using k by simp
    then have e103: "e \<le> 103" by (simp add: e_def ulp_exponent_def)
    have "binade x + 1 \<le> 127" using \<open>binade x \<le> 126\<close> by simp
    then have "(2::real) powi (binade x + 1) \<le> 2 powi 127"
      by (intro power_int_increasing) simp_all
    then have x127: "\<bar>x\<bar> < 2 ^ 127"
      using binade_bounds(2)[OF \<open>x \<noteq> 0\<close>] by simp
    have "(2::real) powi e \<le> 2 powi 103"
      using e103 by (intro power_int_increasing) simp_all
    then have p103: "(2::real) powi e \<le> 2 ^ 103" by simp
    have "of_int m * 2 powi e - x = (of_int m - x / 2 powi e) * 2 powi e"
      using p by (simp add: left_diff_distrib)
    then have "\<bar>of_int m * 2 powi e - x\<bar> = \<bar>of_int m - x / 2 powi e\<bar> * \<bar>2 powi e\<bar>"
      by (simp only: abs_mult)
    also have "\<dots> = \<bar>of_int m - x / 2 powi e\<bar> * 2 powi e"
      using p by simp
    also have "\<dots> \<le> 1 / 2 * 2 powi e"
      using err p by (intro mult_right_mono) simp_all
    also have "\<dots> \<le> 2 ^ 102" using p103 by simp
    finally have "\<bar>of_int m * 2 powi e - x\<bar> \<le> 2 ^ 102" .
    then have "\<bar>of_int m * 2 powi e\<bar> \<le> (2 ^ 127 + 2 ^ 102 :: real)" using x127 by linarith
    then show ?thesis by (simp add: max_float32_def)
  qed
  then show ?thesis
    using \<open>x \<noteq> 0\<close> by (simp add: round32_def Let_def e_def m_def)
qed

lemma round32_representable:
  assumes "x = of_int m * 2 powi e" "\<bar>x\<bar> < 2 powi (e + 24)" "- 149 \<le> e"
    "\<bar>x\<bar> \<le> max_float32"
  shows "round32 x = Some x"
proof (cases "x = 0")
  case True
  then show ?thesis by (simp add: round32_def)
next
  case False
  have "binade x < e + 24" using binade_less[OF False assms(2)] .
  then have "ulp_exponent x \<le> e" using assms(3) by (simp add: ulp_exponent_def)
  then show ?thesis using round32_scaled_int[OF False assms(1) _ assms(4)] by simp
qed

lemma glsl_mod_one:
  assumes "is_float32 s"
  shows "glsl_mod s 1 = round32 (s - of_int \<lfloor>s\<rfloor>)"
proof -
  have "round32 s = Some s" using assms by (simp add: is_float32_def)
  moreover have "round32 (of_int \<lfloor>s\<rfloor>) = Some (of_int \<lfloor>s\<rfloor>)"
    using assms by (rule float32_floor)
  ultimately show ?thesis
    by (simp add: glsl_mod_def fdiv_def fmul_def fsub_def)
qed

lemma half_float: "is_float32 (- 1 / 2)"
  unfolding is_float32_def
  using round32_representable[of "- 1 / 2" "- 1" "- 1"] by (simp add: max_float32_def)

lemma below_half_float: "is_float32 (16777215 / 33554432)"
  unfolding is_float32_def
  using round32_representable[of "16777215 / 33554432" 16777215 "- 25"]
  by (simp add: max_float32_def)

lemma tiny_float: "is_float32 (- 1 / 33554432)"
  unfolding is_float32_def
  using round32_representable[of "- 1 / 33554432" "- 1" "- 25"]
  by (simp add: max_float32_def)

lemma round32_below_one: "round32 (33554431 / 33554432) = Some 1"
proof -
  have "binade (33554431 / 33554432) = - 1"
    using binade_eq[of "33554431 / 33554432" "- 1"] by simp
  then have e: "ulp_exponent (33554431 / 33554432) = - 24" by (simp add: ulp_exponent_def)
  have "rne (33554431 / 33554432 / 2 powi (- 24)) = 16777216"
    by (simp add: rne_def Let_def)
  then show ?thesis
    by (simp add: round32_def Let_def e max_float32_def)
qed


section \<open>Properties of the shaders\<close>

lemma frag_opacity_cases:
  "frag_opacity undef depth = (if depth < 1 then undef 0.2 1.0 depth else 1)"
  by (simp add: frag_opacity_def glsl_clamp_def)

lemma near_fragment: "perspective_fragCoord 0.1 60 (128 / 681) = (15 / 32, 681 / 128)"
  by (simp add: perspective_fragCoord_def)

text \<open>
  C1. The fragment stage is meant to clamp the depth to \<open>[0.2, 1.0]\<close> before multiplying
  by \<open>sin(lifeProgress * 100)\<close>. The call is written \<open>clamp(0.2, 1.0, depth)\<close>: it bounds
  the constant \<open>0.2\<close> by \<open>1.0\<close> below and by the depth above. For a depth of 1 or more
  the factor is 1; for every depth below 1 the lower bound exceeds the upper one and the
  factor is whatever the implementation returns for an undefined \<open>clamp\<close>: 1 for every
  depth where it computes \<open>max(min(x, maxVal), minVal)\<close>, the depth itself where it
  computes \<open>min(max(x, minVal), maxVal)\<close>. A particle \<open>128 / 681\<close> in front of the camera of
  \<open>RoboticsScene\<close> (near \<open>0.1\<close>, far \<open>60\<close>) has \<open>gl_FragCoord.z = 15 / 32\<close>,
  \<open>gl_FragCoord.w = 681 / 128\<close> and depth \<open>4 / 227\<close>; the specification's factor there is
  \<open>0.2\<close>, the code's is 1 or \<open>4 / 227\<close>.
\<close>

theorem frag_opacity_clamps_the_constant:
  "frag_opacity undef depth = (if depth < 1 then undef 0.2 1.0 depth else 1)
   \<and> frag_opacity clamp_max_min depth = 1
   \<and> frag_opacity clamp_min_max depth = min depth 1
   \<and> perspective_fragCoord 0.1 60 (128 / 681) = (15 / 32, 681 / 128)
   \<and> frag_depth (15 / 32) (681 / 128) = 4 / 227
   \<and> spec_opacity (frag_depth (15 / 32) (681 / 128)) = 0.2
   \<and> frag_opacity clamp_max_min (frag_depth (15 / 32) (681 / 128)) = 1
   \<and> frag_opacity clamp_min_max (frag_depth (15 / 32) (681 / 128)) = 4 / 227
   \<and> frag_alpha clamp_max_min lp (frag_depth (15 / 32) (681 / 128)) = sin (lp * 100)"
proof -
  have d: "frag_depth (15 / 32) (681 / 128) = 4 / 227" by (simp add: frag_depth_def)
  have a: "frag_opacity clamp_max_min x = 1" for x
    by (simp add: frag_opacity_def glsl_clamp_def clamp_max_min_def)
  have b: "frag_opacity clamp_min_max x = min x 1" for x
    by (simp add: frag_opacity_def glsl_clamp_def clamp_min_max_def)
  have c: "frag_opacity clamp_min_max (frag_depth (15 / 32) (681 / 128)) = 4 / 227"
    by (simp add: b d)
  have s: "spec_opacity (frag_depth (15 / 32) (681 / 128)) = 0.2"
    by (simp add: d spec_opacity_def)
  have e: "frag_alpha clamp_max_min lp (frag_depth (15 / 32) (681 / 128)) = sin (lp * 100)"
    by (simp add: frag_alpha_def a)
  show ?thesis
    using frag_opacity_cases[of undef depth] a[of depth] b[of depth] near_fragment d s
      a[of "frag_depth (15 / 32) (681 / 128)"] c e
    by blast
qed

text \<open>
  C2, as the code has it. For every finite \<open>time\<close> and every \<open>timeOffset\<close> in \<open>[0, 1)\<close>
  the vertex stage's \<open>lifeProgress = mod(time + timeOffset, 1.0)\<close> is a finite number in
  the closed interval \<open>[0, 1]\<close>. The bound 1 is attained: the subtraction inside \<open>mod\<close>
  rounds to the nearest binary32 number, and a sum just below zero gives exactly \<open>1.0\<close>.
\<close>

theorem lifeProgress_closed_unit_interval:
  assumes "\<bar>time\<bar> \<le> max_float32" "0 \<le> timeOffset" "timeOffset < 1"
  shows "\<exists>v. lifeProgress time timeOffset = Some v \<and> 0 \<le> v \<and> v \<le> 1"
proof -
  have "\<bar>time + timeOffset\<bar> < max_float32 + 2 ^ 103"
    using assms by (simp add: abs_less_iff abs_le_iff)
  then obtain s where s: "round32 (time + timeOffset) = Some s"
    using round32_no_overflow[of "time + timeOffset"] by auto
  then have "is_float32 s" using round32_idem[of "time + timeOffset" s] by (simp add: is_float32_def)
  then have m: "glsl_mod s 1 = round32 (s - of_int \<lfloor>s\<rfloor>)" by (rule glsl_mod_one)
  have "0 \<le> s - of_int \<lfloor>s\<rfloor>" "s - of_int \<lfloor>s\<rfloor> < 1" by linarith+
  then obtain r where "round32 (s - of_int \<lfloor>s\<rfloor>) = Some r" "0 \<le> r" "r \<le> 1"
    using round32_unit_interval by blast
  then show ?thesis using s m by (simp add: lifeProgress_def fadd_def)
qed

theorem lifeProgress_closed_unit_interval_witness:
  "\<bar>1 / 4 :: real\<bar> \<le> max_float32 \<and> (0::real) \<le> 1 / 2 \<and> (1 / 2 :: real) < 1
   \<and> (\<exists>v. lifeProgress (1 / 4) (1 / 2) = Some v \<and> 0 \<le> v \<and> v \<le> 1)"
proof -
  have h1: "\<bar>1 / 4 :: real\<bar> \<le> max_float32" by (simp add: max_float32_def)
  have h2: "(0::real) \<le> 1 / 2" by simp
  have h3: "(1 / 2 :: real) < 1" by simp
  show ?thesis
    using h1 lifeProgress_closed_unit_interval[OF h1 h2 h3] by simp
qed

text \<open>
  With \<open>time = -0.5\<close> and \<open>timeOffset = 0.5 - 2^-25\<close>, both binary32 numbers, the sum is
  \<open>-2^-25\<close>, its floor is \<open>-1\<close>, and \<open>-2^-25 + 1\<close> rounds to \<open>1.0\<close>.
\<close>

theorem lifeProgress_reaches_one:
  "is_float32 (- 1 / 2) \<and> is_float32 (16777215 / 33554432)
   \<and> (0::real) \<le> 16777215 / 33554432 \<and> (16777215 / 33554432 :: real) < 1
   \<and> lifeProgress (- 1 / 2) (16777215 / 33554432) = Some 1"
proof -
  have s: "round32 (- 1 / 2 + 16777215 / 33554432) = Some (- 1 / 33554432)"
    using tiny_float by (simp add: is_float32_def)
  have fl: "\<lfloor>- 1 / 33554432 :: real\<rfloor> = - 1" by simp
  have "glsl_mod (- 1 / 33554432) 1 = round32 (- 1 / 33554432 - of_int \<lfloor>- 1 / 33554432 :: real\<rfloor>)"
    using tiny_float by (rule glsl_mod_one)
  also have "\<dots> = Some 1" using round32_below_one by (simp add: fl)
  finally have "glsl_mod (- 1 / 33554432) 1 = Some 1" .
  then have "lifeProgress (- 1 / 2) (16777215 / 33554432) = Some 1"
    using s by (simp add: lifeProgress_def fadd_def)
  then show ?thesis using half_float below_half_float by simp
qed


section \<open>Properties of update\<close>

lemma updates_snoc: "updates (dts @ [dt]) ps = update dt (updates dts ps)"
  by (induction dts arbitrary: ps) simp_all

lemma update_time: "ps_time (update dt ps) = ps_time ps + 0.0001"
  by (simp add: update_def Let_def)

lemma update_uniform: "uniform_time (ps_mesh (update dt ps)) = sin (ps_time (update dt ps))"
  by (simp add: update_def Let_def)

lemma updates_uniform:
  assumes "dts \<noteq> []"
  shows "uniform_time (ps_mesh (updates dts ps)) = sin (ps_time (updates dts ps))"
proof (cases dts rule: rev_cases)
  case Nil
  with assms show ?thesis by simp
next
  case (snoc init dt)
  then show ?thesis by (simp only: updates_snoc update_uniform)
qed

text \<open>
  C3. One call of \<open>update(dt)\<close> adds the constant \<open>0.0001\<close> to the accumulator, whatever
  \<open>dt\<close> is, and publishes \<open>sin\<close> of the new accumulator as the \<open>time\<close> uniform; two calls
  from the same state with different \<open>dt\<close> give the same state.
\<close>

theorem update_fixed_step_ignores_dt:
  "ps_time (update dt ps) = ps_time ps + 0.0001
   \<and> uniform_time (ps_mesh (update dt ps)) = sin (ps_time (update dt ps))
   \<and> update dt ps = update dt' ps"
  by (simp add: update_def Let_def)


section \<open>Properties of the geometry construction\<close>

lemma same_shape_refl [simp]: "same_shape a a"
  by (simp add: same_shape_def)

lemma same_shape_trans: "same_shape a b \<Longrightarrow> same_shape b c \<Longrightarrow> same_shape a c"
  by (simp add: same_shape_def)

lemma same_shape_count: "same_shape a b \<Longrightarrow> attr_count a = attr_count b"
  by (simp add: same_shape_def attr_count_def)

lemma same_shape_setX [simp]: "same_shape (setX a i x) a"
  by (simp add: setX_def same_shape_def)

lemma same_shape_setXYZ [simp]: "same_shape (setXYZ a i x y z) a"
  by (simp add: setXYZ_def Let_def same_shape_def)

lemma same_shape_setXYZW [simp]: "same_shape (setXYZW a i x y z w) a"
  by (simp add: setXYZW_def Let_def same_shape_def)

lemma offsets_step_shape:
  "same_shape (fst (offsets_step rng ak i)) (fst ak) \<and> snd (offsets_step rng ak i) = snd ak + 3"
  by (cases ak) (simp add: offsets_step_def)

lemma colors_step_shape: "same_shape (fst (colors_step ac i)) (fst ac)"
  by (cases ac) (simp add: colors_step_def split: prod.splits)

lemma timeOffsets_step_shape:
  "same_shape (fst (timeOffsets_step rng ak i)) (fst ak)
   \<and> snd (timeOffsets_step rng ak i) = snd ak + 1"
  by (cases ak) (simp add: timeOffsets_step_def)

lemma orientation_step_shape:
  "same_shape (fst (orientation_step rng ak i)) (fst ak)
   \<and> snd (orientation_step rng ak i) = snd ak + 4"
  by (cases ak) (simp add: orientation_step_def Let_def)

lemma foldl_shape:
  assumes "\<And>s i. same_shape (fst (f s i)) (fst s) \<and> snd (f s i) = snd s + c"
  shows "same_shape (fst (foldl f s is)) (fst s) \<and> snd (foldl f s is) = snd s + c * length is"
proof (induction "is" arbitrary: s)
  case Nil
  show ?case by simp
next
  case (Cons i "is")
  have "same_shape (fst (foldl f (f s i) is)) (fst (f s i))" using Cons by blast
  moreover have "same_shape (fst (f s i)) (fst s)" using assms by blast
  ultimately have "same_shape (fst (foldl f (f s i) is)) (fst s)" by (rule same_shape_trans)
  moreover have "snd (foldl f (f s i) is) = snd s + c * length (i # is)"
    using Cons[of "f s i"] assms[of s i] by simp
  ultimately show ?case by simp
qed

lemma fill_offsets_shape:
  "same_shape (fst (fill_offsets rng (a, k))) a
   \<and> snd (fill_offsets rng (a, k)) = k + 3 * attr_count a"
  unfolding fill_offsets_def
  using foldl_shape[of "offsets_step rng" 3 "(a, k)" "[0..<attr_count a]"] offsets_step_shape
  by simp

lemma fill_timeOffsets_shape:
  "same_shape (fst (fill_timeOffsets rng (a, k))) a
   \<and> snd (fill_timeOffsets rng (a, k)) = k + attr_count a"
  unfolding fill_timeOffsets_def
  using foldl_shape[of "timeOffsets_step rng" 1 "(a, k)" "[0..<attr_count a]"]
    timeOffsets_step_shape
  by simp

lemma fill_orientations_shape:
  "same_shape (fst (fill_orientations rng (a, k))) a
   \<and> snd (fill_orientations rng (a, k)) = k + 4 * attr_count a"
  unfolding fill_orientations_def
  using foldl_shape[of "orientation_step rng" 4 "(a, k)" "[0..<attr_count a]"]
    orientation_step_shape
  by simp

lemma foldl_colors_shape: "same_shape (fst (foldl colors_step s is)) (fst s)"
proof (induction "is" arbitrary: s)
  case Nil
  show ?case by simp
next
  case (Cons i "is")
  show ?case using Cons[of "colors_step s i"] colors_step_shape[of s i]
    by (simp add: same_shape_def)
qed

lemma fill_colors_shape: "same_shape (fill_colors a) a"
  unfolding fill_colors_def using foldl_colors_shape[of "(a, 1)"] by simp

lemma getXYZW_setXYZW_same:
  assumes "attr_itemSize a = 4" "4 * i + 3 < length (attr_array a)"
  shows "getXYZW (setXYZW a i x y z w) i = \<lparr>vx = x, vy = y, vz = z, vw = w\<rparr>"
  using assms by (simp add: getXYZW_def setXYZW_def Let_def mult.commute)

lemma getXYZW_setXYZW_other:
  assumes "attr_itemSize a = 4" "j < i"
  shows "getXYZW (setXYZW a i x y z w) j = getXYZW a j"
  using assms by (simp add: getXYZW_def setXYZW_def Let_def)

lemma foldl_orientations_entries:
  assumes "attr_itemSize a = 4" "4 * n \<le> length (attr_array a)"
  shows "\<forall>j<n. getXYZW (fst (foldl (orientation_step rng) (a, k) [0..<n])) j
                 = random_orientation rng (k + 4 * j)"
  using assms(2)
proof (induction n)
  case 0
  show ?case by simp
next
  case (Suc n)
  define r where "r = foldl (orientation_step rng) (a, k) [0..<n]"
  have shape: "same_shape (fst r) a" and k: "snd r = k + 4 * n"
    using foldl_shape[of "orientation_step rng" 4 "(a, k)" "[0..<n]"] orientation_step_shape
    by (simp_all add: r_def)
  have size4: "attr_itemSize (fst r) = 4" and len: "4 * n + 3 < length (attr_array (fst r))"
    using shape assms(1) Suc.prems by (simp_all add: same_shape_def)
  have IH: "\<forall>j<n. getXYZW (fst r) j = random_orientation rng (k + 4 * j)"
    using Suc by (simp add: r_def)
  have step: "foldl (orientation_step rng) (a, k) [0..<Suc n] = orientation_step rng r n"
    by (simp add: r_def)
  have fst_step: "fst (orientation_step rng r n)
      = setXYZW (fst r) n (vx (random_orientation rng (k + 4 * n)))
          (vy (random_orientation rng (k + 4 * n))) (vz (random_orientation rng (k + 4 * n)))
          (vw (random_orientation rng (k + 4 * n)))"
    using k by (cases r) (simp add: orientation_step_def Let_def)
  show ?case
  proof (intro allI impI)
    fix j assume "j < Suc n"
    then consider "j < n" | "j = n" by linarith
    then show "getXYZW (fst (foldl (orientation_step rng) (a, k) [0..<Suc n])) j
               = random_orientation rng (k + 4 * j)"
    proof cases
      case 1
      then show ?thesis
        using IH size4 by (simp only: step fst_step getXYZW_setXYZW_other)
    next
      case 2
      then show ?thesis
        using size4 len by (simp only: step fst_step getXYZW_setXYZW_same) simp
    qed
  qed
qed

lemma fill_orientations_entries:
  assumes "attr_itemSize a = 4" "length (attr_array a) = 4 * n"
  shows "\<forall>j<n. getXYZW (fst (fill_orientations rng (a, k))) j
                 = random_orientation rng (k + 4 * j)"
proof -
  have "attr_count a = n" using assms by (simp add: attr_count_def)
  then show ?thesis
    using foldl_orientations_entries[of a n rng k] assms
    by (simp add: fill_orientations_def)
qed

lemma vec_length_zero_iff: "vec_length v = 0 \<longleftrightarrow> vx v = 0 \<and> vy v = 0 \<and> vz v = 0 \<and> vw v = 0"
proof -
  have "vx v * vx v + vy v * vy v + vz v * vz v + vw v * vw v = 0
        \<longleftrightarrow> vx v = 0 \<and> vy v = 0 \<and> vz v = 0 \<and> vw v = 0"
    by (smt (verit) mult_eq_0_iff zero_le_square not_sum_squares_lt_zero)
  then show ?thesis by (simp add: vec_length_def)
qed

lemma vec_length_divideScalar:
  assumes "0 < l"
  shows "vec_length (divideScalar v l) = vec_length v / l"
proof -
  have "vx v / l * (vx v / l) + vy v / l * (vy v / l) + vz v / l * (vz v / l)
          + vw v / l * (vw v / l)
        = (vx v * vx v + vy v * vy v + vz v * vz v + vw v * vw v) / (l * l)"
    by (simp add: add_divide_distrib)
  then have "vec_length (divideScalar v l)
        = sqrt ((vx v * vx v + vy v * vy v + vz v * vz v + vw v * vw v) / (l * l))"
    by (simp add: divideScalar_def vec_length_def)
  also have "\<dots> = vec_length v / l"
    using assms by (simp add: real_sqrt_divide real_sqrt_mult vec_length_def)
  finally show ?thesis .
qed

lemma vec_length_normalize:
  "vec_length (normalize v) = (if vec_length v = 0 then 0 else 1)"
proof (cases "vec_length v = 0")
  case True
  then show ?thesis
    using vec_length_zero_iff[of v] by (simp add: normalize_def divideScalar_def vec_length_def)
next
  case False
  have "0 \<le> vec_length v" by (simp add: vec_length_def)
  then have lpos: "0 < vec_length v" using False by simp
  show ?thesis
    using False lpos by (simp add: normalize_def vec_length_divideScalar)
qed

lemma vec_length_random_orientation:
  "vec_length (random_orientation rng k) = (if all_half rng k then 0 else 1)"
proof -
  have "vec_length \<lparr>vx = rng k * 2 - 1, vy = rng (k + 1) * 2 - 1,
                vz = rng (k + 2) * 2 - 1, vw = rng (k + 3) * 2 - 1\<rparr> = 0 \<longleftrightarrow> all_half rng k"
    by (simp add: vec_length_zero_iff all_half_def)
  then show ?thesis
    by (simp add: random_orientation_def vec_length_normalize)
qed

lemma count_zeros: "0 \<le> N \<Longrightarrow> 0 < sz \<Longrightarrow> attr_count (zeros (N * int sz) sz) = nat N"
  by (simp add: zeros_def attr_count_def nat_mult_distrib)

lemma build_ok:
  assumes "0 \<le> N" "9 \<le> limit" "N * 4 \<le> limit"
  shows "\<exists>ps. ParticleSystem_build limit N rng
            = ([9, N * 3, N * 4, N * 1, N * 4, N * 4], Inr (ps, 12 * nat N))
          \<and> ps_time ps = 0 \<and> uniform_time (ps_mesh ps) = 5
          \<and> mesh_geometry (ps_mesh ps) ''offset'' = Some (fst (fill_offsets rng (zeros (N * 3) 3, 0)))
          \<and> mesh_geometry (ps_mesh ps) ''color'' = Some (fill_colors (zeros (N * 4) 4))
          \<and> mesh_geometry (ps_mesh ps) ''timeOffset''
              = Some (fst (fill_timeOffsets rng (zeros (N * 1) 1, 3 * nat N)))
          \<and> mesh_geometry (ps_mesh ps) ''orientationStart''
              = Some (fst (fill_orientations rng (zeros (N * 4) 4, 4 * nat N)))
          \<and> mesh_geometry (ps_mesh ps) ''orientationEnd''
              = Some (fst (fill_orientations rng (zeros (N * 4) 4, 8 * nat N)))"
proof -
  have c3: "attr_count (zeros (N * 3) 3) = nat N" using count_zeros[of N 3] assms by simp
  have c1: "attr_count (zeros (N * 1) 1) = nat N" using count_zeros[of N 1] assms by simp
  have c4: "attr_count (zeros (N * 4) 4) = nat N" using count_zeros[of N 4] assms by simp
  have k1: "snd (fill_offsets rng (zeros (N * 3) 3, 0)) = 3 * nat N"
    using fill_offsets_shape[of rng "zeros (N * 3) 3" 0] c3 by simp
  have k2: "snd (fill_timeOffsets rng (zeros (N * 1) 1, 3 * nat N)) = 4 * nat N"
    using fill_timeOffsets_shape[of rng "zeros (N * 1) 1" "3 * nat N"] c1 by simp
  have k3: "snd (fill_orientations rng (zeros (N * 4) 4, 4 * nat N)) = 8 * nat N"
    using fill_orientations_shape[of rng "zeros (N * 4) 4" "4 * nat N"] c4 by simp
  have k4: "snd (fill_orientations rng (zeros (N * 4) 4, 8 * nat N)) = 12 * nat N"
    using fill_orientations_shape[of rng "zeros (N * 4) 4" "8 * nat N"] c4 by simp
  have alloc: "\<And>m::int. 0 \<le> m \<Longrightarrow> m \<le> limit
                 \<Longrightarrow> new_Float32Array limit m = Inr (replicate (nat m) 0)"
    by (simp add: new_Float32Array_def)
  have a9: "new_Float32Array limit 9 = Inr (replicate 9 0)"
    using assms(2) by (simp add: new_Float32Array_def)
  have a3: "new_Float32Array limit (N * 3) = Inr (replicate (nat (N * 3)) 0)"
    using assms by (intro alloc) simp_all
  have a4: "new_Float32Array limit (N * 4) = Inr (replicate (nat (N * 4)) 0)"
    using assms by (intro alloc) simp_all
  have a1: "new_Float32Array limit N = Inr (replicate (nat N) 0)"
    using assms by (intro alloc) simp_all
  show ?thesis
    using assms(1) k1 k2 k3 k4
    by (simp add: ParticleSystem_build_def a9 a3 a4 a1 Let_def split_def zeros_def)
qed

lemma built_attributes:
  assumes "0 \<le> N" "9 \<le> limit" "N * 4 \<le> limit"
  shows "built_attribute limit N rng ''offset''
          = Some (fst (fill_offsets rng (zeros (N * 3) 3, 0)))"
    and "built_attribute limit N rng ''color'' = Some (fill_colors (zeros (N * 4) 4))"
    and "built_attribute limit N rng ''timeOffset''
          = Some (fst (fill_timeOffsets rng (zeros (N * 1) 1, 3 * nat N)))"
    and "built_attribute limit N rng ''orientationStart''
          = Some (fst (fill_orientations rng (zeros (N * 4) 4, 4 * nat N)))"
    and "built_attribute limit N rng ''orientationEnd''
          = Some (fst (fill_orientations rng (zeros (N * 4) 4, 8 * nat N)))"
    and "build_error limit N rng = None"
    and "build_allocs limit N rng = [9, N * 3, N * 4, N * 1, N * 4, N * 4]"
  using build_ok[OF assms, of rng]
  by (auto simp: built_attribute_def build_error_def build_allocs_def)

lemma built_counts:
  assumes "0 \<le> N" "9 \<le> limit" "N * 4 \<le> limit" "name \<in> set per_instance_attributes"
  shows "built_count limit N rng name = Some (nat N)"
proof -
  have c3: "attr_count (zeros (N * 3) 3) = nat N" using count_zeros[of N 3] assms by simp
  have c1: "attr_count (zeros (N * 1) 1) = nat N" using count_zeros[of N 1] assms by simp
  have c4: "attr_count (zeros (N * 4) 4) = nat N" using count_zeros[of N 4] assms by simp
  have "attr_count (fst (fill_offsets rng (zeros (N * 3) 3, 0))) = nat N"
    using fill_offsets_shape[of rng "zeros (N * 3) 3" 0] c3 same_shape_count by metis
  moreover have "attr_count (fill_colors (zeros (N * 4) 4)) = nat N"
    using fill_colors_shape[of "zeros (N * 4) 4"] c4 same_shape_count by metis
  moreover have "attr_count (fst (fill_timeOffsets rng (zeros (N * 1) 1, 3 * nat N))) = nat N"
    using fill_timeOffsets_shape[of rng "zeros (N * 1) 1"] c1 same_shape_count by metis
  moreover have "\<And>k. attr_count (fst (fill_orientations rng (zeros (N * 4) 4, k))) = nat N"
    using fill_orientations_shape[of rng "zeros (N * 4) 4"] c4 same_shape_count by metis
  ultimately show ?thesis
    using assms(4) built_attributes(1-5)[OF assms(1-3), of rng]
    by (auto simp: built_count_def per_instance_attributes_def)
qed

lemma built_magnitudes:
  assumes "0 \<le> N" "9 \<le> limit" "N * 4 \<le> limit" "i < nat N"
  shows "built_magnitude limit N rng ''orientationStart'' i
           = Some (if all_half rng (4 * nat N + 4 * i) then 0 else 1)"
    and "built_magnitude limit N rng ''orientationEnd'' i
           = Some (if all_half rng (8 * nat N + 4 * i) then 0 else 1)"
proof -
  have sz: "attr_itemSize (zeros (N * 4) 4) = 4"
    and len: "length (attr_array (zeros (N * 4) 4)) = 4 * nat N"
    using assms(1) by (simp_all add: zeros_def nat_mult_distrib)
  have "\<And>k. getXYZW (fst (fill_orientations rng (zeros (N * 4) 4, k))) i
          = random_orientation rng (k + 4 * i)"
    using fill_orientations_entries[OF sz len] assms(4) by blast
  then show "built_magnitude limit N rng ''orientationStart'' i
           = Some (if all_half rng (4 * nat N + 4 * i) then 0 else 1)"
    and "built_magnitude limit N rng ''orientationEnd'' i
           = Some (if all_half rng (8 * nat N + 4 * i) then 0 else 1)"
    using built_attributes(4,5)[OF assms(1-3), of rng]
    by (simp_all add: built_magnitude_def vec_length_random_orientation)
qed

lemma built_units:
  assumes "0 \<le> N" "9 \<le> limit" "N * 4 \<le> limit" "i < nat N"
  shows "built_unit limit N rng ''orientationStart'' i
           \<longleftrightarrow> \<not> all_half rng (4 * nat N + 4 * i)"
    and "built_unit limit N rng ''orientationEnd'' i
           \<longleftrightarrow> \<not> all_half rng (8 * nat N + 4 * i)"
  using built_magnitudes[OF assms, of rng] by (simp_all add: built_unit_def)

text \<open>
  The constructor of the source: its six allocations are within every limit of at least
  8000, and then the limit has no part in the result.
\<close>

lemma limit_admits_source: "9 \<le> typed_array_limit" "2000 * 4 \<le> typed_array_limit"
  by (simp_all add: typed_array_limit_def)

lemma build_same_for_admitting_limits:
  assumes "0 \<le> N" "9 \<le> limit" "N * 4 \<le> limit" "9 \<le> limit'" "N * 4 \<le> limit'"
  shows "ParticleSystem_build limit N rng = ParticleSystem_build limit' N rng"
proof -
  have alloc: "\<And>l m::int. 0 \<le> m \<Longrightarrow> m \<le> l
                 \<Longrightarrow> new_Float32Array l m = Inr (replicate (nat m) 0)"
    by (simp add: new_Float32Array_def)
  have a9: "new_Float32Array limit 9 = Inr (replicate 9 0)"
    "new_Float32Array limit' 9 = Inr (replicate 9 0)"
    using assms(2,4) by (simp_all add: new_Float32Array_def)
  have a3: "new_Float32Array limit (N * 3) = Inr (replicate (nat (N * 3)) 0)"
    "new_Float32Array limit' (N * 3) = Inr (replicate (nat (N * 3)) 0)"
    using assms by (intro alloc; simp)+
  have a4: "new_Float32Array limit (N * 4) = Inr (replicate (nat (N * 4)) 0)"
    "new_Float32Array limit' (N * 4) = Inr (replicate (nat (N * 4)) 0)"
    using assms by (intro alloc; simp)+
  have a1: "new_Float32Array limit N = Inr (replicate (nat N) 0)"
    "new_Float32Array limit' N = Inr (replicate (nat N) 0)"
    using assms by (intro alloc; simp)+
  show ?thesis
    by (simp add: ParticleSystem_build_def a9 a3 a4 a1 Let_def)
qed

lemma build_limit_irrelevant:
  assumes "8000 \<le> limit"
  shows "ParticleSystem_build limit 2000 rng = ParticleSystem_new rng"
  using build_same_for_admitting_limits[of 2000 limit typed_array_limit rng] assms
    limit_admits_source
  by (simp add: ParticleSystem_new_def)

lemma constructed_ok:
  "\<exists>ps. ParticleSystem_new rng = ([9, 6000, 8000, 2000, 8000, 8000], Inr (ps, 24000))
      \<and> uniform_time (ps_mesh ps) = 5"
  using build_ok[of 2000 typed_array_limit rng] limit_admits_source
  by (auto simp: ParticleSystem_new_def)


lemma rng_example_not_half: "rng_example k \<noteq> 1 / 2"
proof
  assume "rng_example k = 1 / 2"
  then have "2 * real ((k * 7919 + 104729) mod 1000003) = real 1000003"
    by (simp add: rng_example_def field_simps)
  then have "real (2 * ((k * 7919 + 104729) mod 1000003)) = real 1000003" by simp
  then have "2 * ((k * 7919 + 104729) mod 1000003) = 1000003"
    by (simp only: of_nat_eq_iff)
  then have "even (1000003 :: nat)" by (metis dvd_triv_left)
  then show False by simp
qed

lemma rng_example_zero_sample_free: "zero_sample_free n rng_example"
  unfolding zero_sample_free_def all_half_def using rng_example_not_half by blast

text \<open>
  C4. For every instance count \<open>N > 0\<close> that is valid for the engine (the source's count
  is 2000), each of the five per-instance attributes (\<open>offset\<close>, \<open>color\<close>, \<open>timeOffset\<close>,
  \<open>orientationStart\<close>, \<open>orientationEnd\<close>) has exactly \<open>N\<close> entries, and every entry of
  the two orientation attributes has magnitude within \<open>1e-5\<close> of 1. \<open>Math.random()\<close> is
  taken to return no four consecutive draws of exactly \<open>0.5\<close> where an orientation is
  sampled: such a sample is the zero vector, which no normalization makes a unit vector.
\<close>

theorem build_counts_and_unit_orientations:
  assumes "valid_count limit N" "zero_sample_free (nat N) rng"
  shows "(\<forall>name \<in> set per_instance_attributes. built_count limit N rng name = Some (nat N))
     \<and> (\<forall>i < nat N. built_unit limit N rng ''orientationStart'' i
                   \<and> built_unit limit N rng ''orientationEnd'' i)"
proof -
  have v: "0 \<le> N" "9 \<le> limit" "N * 4 \<le> limit"
    using assms(1) by (simp_all add: valid_count_def)
  have "\<forall>name \<in> set per_instance_attributes. built_count limit N rng name = Some (nat N)"
    using built_counts[OF v] by blast
  moreover have "\<forall>i < nat N. built_unit limit N rng ''orientationStart'' i
                   \<and> built_unit limit N rng ''orientationEnd'' i"
    using built_units[OF v] assms(2) by (simp add: zero_sample_free_def)
  ultimately show ?thesis by blast
qed

theorem build_counts_and_unit_orientations_witness:
  "valid_count typed_array_limit 2000 \<and> zero_sample_free (nat 2000) rng_example
   \<and> built_count typed_array_limit 2000 rng_example ''offset'' = Some 2000
   \<and> built_count typed_array_limit 2000 rng_example ''orientationEnd'' = Some 2000
   \<and> built_unit typed_array_limit 2000 rng_example ''orientationStart'' 0
   \<and> built_unit typed_array_limit 2000 rng_example ''orientationEnd'' 1999"
proof -
  have h1: "valid_count typed_array_limit 2000"
    by (simp add: valid_count_def typed_array_limit_def)
  have h2: "zero_sample_free (nat 2000) rng_example"
    by (rule rng_example_zero_sample_free)
  have t: "(\<forall>name \<in> set per_instance_attributes.
              built_count typed_array_limit 2000 rng_example name = Some (nat 2000))
     \<and> (\<forall>i < nat 2000. built_unit typed_array_limit 2000 rng_example ''orientationStart'' i
                   \<and> built_unit typed_array_limit 2000 rng_example ''orientationEnd'' i)"
    using build_counts_and_unit_orientations[OF h1 h2] .
  have "''offset'' \<in> set per_instance_attributes"
    "''orientationEnd'' \<in> set per_instance_attributes"
    by (simp_all add: per_instance_attributes_def)
  moreover have "(0::nat) < nat 2000" "(1999::nat) < nat 2000" by simp_all
  ultimately show ?thesis using h1 h2 t by auto
qed




lemma constructed_uniform: "constructed_uniform_time rng = Some 5"
  using constructed_ok[of rng]
  by (auto simp: constructed_uniform_time_def)

text \<open>
  C10. The constructor sets the \<open>time\<close> uniform to \<open>5.0\<close>; after any non-empty sequence of
  \<open>update\<close> calls, from any state, the uniform lies in \<open>[-1, 1]\<close>; and every further
  \<open>update\<close> makes the accumulator strictly larger.
\<close>

theorem time_uniform_bounded_accumulator_increasing:
  "constructed_uniform_time rng = Some 5
   \<and> (dts \<noteq> [] \<longrightarrow> - 1 \<le> uniform_time (ps_mesh (updates dts ps))
                     \<and> uniform_time (ps_mesh (updates dts ps)) \<le> 1)
   \<and> ps_time ps < ps_time (update dt ps)
   \<and> ps_time (updates dts ps) < ps_time (updates (dts @ [dt]) ps)"
  using updates_uniform[of dts ps]
  by (simp add: constructed_uniform updates_snoc update_time)

theorem time_uniform_bounded_accumulator_increasing_witness:
  "constructed_uniform_time rng_zero = Some 5
   \<and> [1 / 60, 1 / 30] \<noteq> ([] :: real list)
   \<and> - 1 \<le> uniform_time (ps_mesh (updates [1 / 60, 1 / 30] ps_example))
   \<and> uniform_time (ps_mesh (updates [1 / 60, 1 / 30] ps_example)) \<le> 1
   \<and> ps_time ps_example < ps_time (update (1 / 60) ps_example)
   \<and> ps_time (updates [1 / 60, 1 / 30] ps_example)
       < ps_time (updates ([1 / 60, 1 / 30] @ [1 / 60]) ps_example)"
  using time_uniform_bounded_accumulator_increasing
          [of rng_zero "[1 / 60, 1 / 30]" ps_example "1 / 60"]
  by simp


section \<open>Properties of the components\<close>

subsection \<open>RoboticsScene\<close>

lemma ParticleSystem_new_ok: "\<exists>ps. snd (ParticleSystem_new rng) = Inr (ps, 24000)"
  using constructed_ok[of rng] by auto

lemma robotics_particles_effect_ok:
  "\<exists>ps. robotics_particles_effect rng s
        = Inr (s\<lparr>h_next := h_next s + 1, rb_draws := rb_draws s + 24000,
                 rb_particles := Some (h_next s, ps)\<rparr>)"
proof -
  obtain ps where "snd (ParticleSystem_new (\<lambda>i. rng (rb_draws s + i))) = Inr (ps, 24000)"
    using ParticleSystem_new_ok by blast
  then show ?thesis by (intro exI[of _ ps]) (simp add: robotics_particles_effect_def)
qed

lemmas robotics_defs =
  robotics_mount_def robotics_init_def robotics_scene_effect_def robotics_resize_effect_def
  robotics_render_effect_def robotics_render_def robotics_handleWindowResize_def
  bind_err_def log_call_def
  requestAnimationFrame_def new_Scene_def scene_add_def new_PerspectiveCamera_def
  new_WebGLRenderer_def updateProjectionMatrix_def Let_def

lemma robotics_mount_state:
  "\<exists>s rnd cam sc ps. robotics_mount win themes th reduced rng delta = Inr s
       \<and> h_calls s = SetSize (innerWidth win) (innerHeight win)
                    # (if reduced then []
                       else [AddEventListener ''resize'', Render, RequestAnimationFrame 1])
       \<and> h_pending s = (if reduced then [] else [1])
       \<and> rb_resize_listeners s = (if reduced then 0 else 1)
       \<and> h_next s = 6 \<and> rb_canvases s = [3]
       \<and> rb_dep_theme s = th \<and> rb_dep_reduced s = reduced
       \<and> rb_width s = innerWidth win \<and> rb_height s = innerHeight win
       \<and> rb_renderer s = Some rnd \<and> rnd_id rnd = 3
       \<and> rnd_size rnd = (innerWidth win, innerHeight win)
       \<and> rb_camera s = Some cam \<and> cam_id cam = 2
       \<and> cam_aspect cam = js_div (innerWidth win) (innerHeight win)
       \<and> cam_position cam = (0, 1.7, 0.5)
       \<and> fst (snd (cam_projection cam)) = js_div (innerWidth win) (innerHeight win)
       \<and> rb_scene s = Some sc \<and> scn_id sc = 1
       \<and> rb_particles s = Some (0, ps)"
proof -
  obtain ps where "robotics_particles_effect rng (robotics_init win th reduced)
        = Inr ((robotics_init win th reduced)\<lparr>
                 h_next := h_next (robotics_init win th reduced) + 1,
                 rb_draws := rb_draws (robotics_init win th reduced) + 24000,
                 rb_particles := Some (h_next (robotics_init win th reduced), ps)\<rparr>)"
    using robotics_particles_effect_ok by blast
  then show ?thesis
    by (cases reduced) (simp_all add: robotics_defs)
qed

lemma robotics_theme_change_result:
  assumes "th' \<noteq> th"
  shows "robotics_theme_change win themes th th' reduced rng delta
         = Inr ((Some 2, Some 3, Some 1, Some 0), (Some 8, Some 9, Some 7, Some 6), [3, 9],
                Some (0, 1.7, 0.5), Some (0, 1.7, 0.5))"
proof -
  obtain s rnd cam sc ps where s: "robotics_mount win themes th reduced rng delta = Inr s"
    "h_next s = 6" "rb_canvases s = [3]" "rb_dep_theme s = th" "rb_dep_reduced s = reduced"
    "rb_renderer s = Some rnd" "rnd_id rnd = 3" "rb_camera s = Some cam" "cam_id cam = 2"
    "cam_position cam = (0, 1.7, 0.5)" "rb_scene s = Some sc" "scn_id sc = 1"
    "rb_particles s = Some (0, ps)"
    using robotics_mount_state[of win themes th reduced rng delta] by blast
  define s0 where "s0 = s\<lparr>rb_dep_theme := th', rb_dep_reduced := reduced\<rparr>"
  obtain ps' where ps': "robotics_particles_effect rng s0
        = Inr (s0\<lparr>h_next := h_next s0 + 1, rb_draws := rb_draws s0 + 24000,
                 rb_particles := Some (h_next s0, ps')\<rparr>)"
    using robotics_particles_effect_ok by blast
  have "robotics_rerender win themes th' reduced rng delta s
        = robotics_scene_effect win themes th'
            (s0\<lparr>h_next := h_next s0 + 1, rb_draws := rb_draws s0 + 24000,
                 rb_particles := Some (h_next s0, ps')\<rparr>)"
    using assms s(4,5) ps'
    by (simp add: robotics_rerender_def bind_err_def s0_def Let_def split: sum.splits)
  then show ?thesis
    using s by (simp add: robotics_theme_change_def robotics_ids_def s0_def
        robotics_scene_effect_def bind_err_def log_call_def new_Scene_def scene_add_def
        new_PerspectiveCamera_def new_WebGLRenderer_def updateProjectionMatrix_def Let_def)
qed

lemma robotics_handleWindowResize_result:
  "\<exists>s s'. robotics_mount win themes th reduced rng delta = Inr s
      \<and> robotics_handleWindowResize win' s = Inr s'
      \<and> view_of (rb_renderer s') (rb_camera s')
          = (Some (innerWidth win', innerHeight win'),
             Some (js_div (innerWidth win') (innerHeight win')),
             Some (js_div (innerWidth win') (innerHeight win')))
      \<and> h_calls s' = h_calls s @ [SetSize (innerWidth win') (innerHeight win'),
                                   UpdateProjectionMatrix]"
proof -
  obtain s rnd cam where s: "robotics_mount win themes th reduced rng delta = Inr s"
    "rb_renderer s = Some rnd" "rb_camera s = Some cam"
    using robotics_mount_state[of win themes th reduced rng delta] by blast
  then show ?thesis
    by (simp add: robotics_handleWindowResize_def log_call_def view_of_def
        updateProjectionMatrix_def Let_def)
qed


subsection \<open>Portrait\<close>

lemmas portrait_defs =
  portrait_init_def portrait_init_effect_def portrait_lights_effect_def
  portrait_lights_cleanup_def removeLights_def portrait_handleResize_def
  portrait_resize_effect_def portrait_resize_cleanup_def portrait_mouse_effect_def
  portrait_mouse_cleanup_def portrait_render_call_def portrait_animate_def
  portrait_render_effect_def portrait_render_cleanup_def bind_err_def log_call_def
  requestAnimationFrame_def cancelAnimationFrame_def new_Scene_def scene_add_def
  new_PerspectiveCamera_def new_WebGLRenderer_def updateProjectionMatrix_def Let_def

lemma portrait_mount_ok:
  "\<exists>s. portrait_mount props dims = Inr s \<and> refs_set s \<and> own_frame s \<and> pt_props s = props"
  by (simp add: portrait_mount_def portrait_defs refs_set_def own_frame_def)


lemma portrait_rerender_ok:
  assumes "refs_set s" "own_frame s"
  shows "\<exists>s'. portrait_rerender props dims s = Inr s' \<and> refs_set s' \<and> own_frame s'"
proof -
  obtain r c sc ls where refs: "pt_renderer s = Some r" "pt_camera s = Some c"
      "pt_scene s = Some sc" "pt_lights s = Some ls"
    using assms(1) by (auto simp: refs_set_def)
  show ?thesis
    using refs assms(2)
    by (auto simp: portrait_rerender_def portrait_defs refs_set_def own_frame_def
             split: list.splits)
qed

lemma portrait_frame_ok:
  assumes "refs_set s" "own_frame s"
  shows "\<exists>s'. portrait_frame s = Inr s' \<and> refs_set s' \<and> own_frame s'"
proof -
  obtain r where refs: "pt_renderer s = Some r"
    using assms(1) by (auto simp: refs_set_def)
  show ?thesis
    using refs assms
    by (auto simp: portrait_frame_def portrait_defs refs_set_def own_frame_def
             split: list.splits)
qed

lemma portrait_resize_event_ok:
  assumes "refs_set s" "own_frame s"
  shows "\<exists>s'. portrait_handleResize reduced dims s = Inr s' \<and> refs_set s' \<and> own_frame s'"
proof -
  obtain r c where refs: "pt_renderer s = Some r" "pt_camera s = Some c"
    using assms(1) by (auto simp: refs_set_def)
  show ?thesis
    using refs assms
    by (auto simp: portrait_defs refs_set_def own_frame_def split: list.splits)
qed

lemma portrait_step_ok:
  assumes "refs_set s" "own_frame s"
  shows "\<exists>s'. portrait_step ev s = Inr s' \<and> refs_set s' \<and> own_frame s'"
proof (cases ev)
  case (Rerender props dims)
  then show ?thesis
    using portrait_rerender_ok[OF assms] by (simp add: portrait_step_def)
next
  case (ResizeEvent dims)
  then show ?thesis
    using portrait_resize_event_ok[OF assms] assms
    by (cases "pt_resize_handler s") (simp_all add: portrait_step_def)
next
  case Frame
  then show ?thesis
    using portrait_frame_ok[OF assms] by (simp add: portrait_step_def)
qed

lemma portrait_run_ok:
  assumes "refs_set s" "own_frame s"
  shows "\<exists>s'. portrait_run evs s = Inr s' \<and> refs_set s' \<and> own_frame s'"
  using assms
proof (induction evs arbitrary: s)
  case Nil
  then show ?case by simp
next
  case (Cons ev evs)
  obtain s1 where s1: "portrait_step ev s = Inr s1" "refs_set s1" "own_frame s1"
    using portrait_step_ok[OF Cons.prems] by blast
  then show ?case
    using Cons.IH[of s1] by (simp add: bind_err_def)
qed

lemma portrait_session_ok:
  "\<exists>s. portrait_session props dims evs = Inr s \<and> refs_set s \<and> own_frame s"
proof -
  obtain s0 where "portrait_mount props dims = Inr s0" "refs_set s0" "own_frame s0"
    using portrait_mount_ok by blast
  then show ?thesis
    using portrait_run_ok[of s0 evs] by (simp add: portrait_session_def bind_err_def)
qed

lemma stop_clears_own_frame:
  assumes "own_frame s"
  shows "h_pending (portrait_render_cleanup s) = []"
    and "h_pending (portrait_render_cleanup (portrait_render_cleanup s)) = []"
  using assms
  by (auto simp: own_frame_def portrait_render_cleanup_def cancelAnimationFrame_def
        log_call_def split: list.splits)



lemma portrait_theme_change_keeps_camera:
  assumes "refs_set s" "pp_themeId props \<noteq> pp_themeId (pt_props s)"
    "pp_reduced props = pp_reduced (pt_props s)"
    "pp_inViewport props = pp_inViewport (pt_props s)"
  shows "\<exists>s' a d. portrait_rerender props dims s = Inr s'
      \<and> pt_camera s' = pt_camera s \<and> pt_renderer s' = pt_renderer s
      \<and> map_option scn_id (pt_scene s') = map_option scn_id (pt_scene s)
      \<and> h_calls s' = h_calls s \<and> h_pending s' = h_pending s
      \<and> pt_lights s' = Some [a, d] \<and> light_id a = h_next s \<and> light_id d = h_next s + 1"
proof -
  obtain r c sc ls where refs: "pt_renderer s = Some r" "pt_camera s = Some c"
      "pt_scene s = Some sc" "pt_lights s = Some ls"
    using assms(1) by (auto simp: refs_set_def)
  show ?thesis
    using refs assms(2-4) by (simp add: portrait_rerender_def portrait_defs)
qed

lemma portrait_handleResize_result:
  assumes "refs_set s"
  shows "\<exists>s'. portrait_handleResize reduced (w, h) s = Inr s'
      \<and> view_of (pt_renderer s') (pt_camera s')
          = (Some (w, h), Some (js_div w h), Some (js_div w h))
      \<and> h_calls s' = h_calls s @ [SetSize w h, UpdateProjectionMatrix]
                        @ (if reduced then [Render] else [])"
proof -
  obtain r c where refs: "pt_renderer s = Some r" "pt_camera s = Some c"
    using assms(1) by (auto simp: refs_set_def)
  show ?thesis
    using refs by (simp add: portrait_defs view_of_def)
qed

lemma portrait_mount_calls:
  "session_calls props dims []
     = Some ([SetSize (fst dims) (snd dims), AddEventListener ''resize'',
              SetSize (fst dims) (snd dims), UpdateProjectionMatrix]
             @ (if pp_reduced props then [Render, Render]
                else if pp_inViewport props
                then [AddEventListener ''mousemove'', RequestAnimationFrame 1, Render]
                else [Render]))"
  by (simp add: session_calls_def portrait_session_def portrait_mount_def portrait_defs)

lemma robotics_mount_calls_eq:
  shows "robotics_mount_calls win themes th reduced rng delta
     = Some (SetSize (innerWidth win) (innerHeight win)
             # (if reduced then []
                else [AddEventListener ''resize'', Render, RequestAnimationFrame 1]))"
  and "robotics_mount_pending win themes th reduced rng delta
     = Some (if reduced then [] else [1])"
  using robotics_mount_state[of win themes th reduced rng delta]
  by (auto simp: robotics_mount_calls_def robotics_mount_pending_def)


subsection \<open>Theme change\<close>

text \<open>
  C5. A theme change should replace the two lights and leave the camera and the particle
  geometry the same objects. In \<open>RoboticsScene\<close>, mounted with the dark theme and rendered
  again with the light theme, it does not: the effect that builds the particle system has
  no dependency list and the scene effect rebuilds everything, so the camera (identity 2
  before, 8 after), the renderer (3, 9), the scene (1, 7) and the particle system with its
  buffers (0, 6) are all new objects, and the container holds two canvases. Only the value
  of the camera position is the same. \<open>Portrait\<close> keeps the camera, the renderer and the
  scene (\<open>portrait_theme_change_keeps_camera\<close>).
\<close>

theorem robotics_theme_change_rebuilds_scene:
  "robotics_theme_change window_example themes_example theme_dark theme_light False rng_half
     (1 / 60)
   = Inr ((Some 2, Some 3, Some 1, Some 0), (Some 8, Some 9, Some 7, Some 6), [3, 9],
          Some (0, 1.7, 0.5), Some (0, 1.7, 0.5))"
proof -
  have "theme_light \<noteq> theme_dark" by (simp add: theme_light_def theme_dark_def)
  then show ?thesis by (rule robotics_theme_change_result)
qed

subsection \<open>Reduced motion\<close>




subsection \<open>Resize\<close>

text \<open>
  C7, as the code has it. One call of the resize routine with dimensions \<open>(w, h)\<close>, in
  \<open>Portrait\<close> after any session and in \<open>RoboticsScene\<close> after its mount, leaves the
  renderer with size \<open>(w, h)\<close> and the camera with aspect \<open>w / h\<close> and a projection matrix
  computed from that aspect, having called \<open>setSize\<close> and \<open>updateProjectionMatrix\<close> (and
  \<open>render\<close>, in \<open>Portrait\<close> with reduced motion). \<open>Portrait\<close> runs the routine exactly once
  during its mount. \<open>RoboticsScene\<close> does not run it during its mount: the scene effect
  sets the renderer size and constructs the camera with the aspect of the window, and the
  routine is only registered as a listener, when motion is not reduced.
\<close>

theorem resize_routine_effect_and_mount:
  "(\<exists>s s'. portrait_session props dims evs = Inr s
       \<and> portrait_handleResize reduced (w, h) s = Inr s'
       \<and> view_of (pt_renderer s') (pt_camera s')
           = (Some (w, h), Some (js_div w h), Some (js_div w h))
       \<and> h_calls s' = h_calls s @ [SetSize w h, UpdateProjectionMatrix]
                         @ (if reduced then [Render] else []))
   \<and> (\<exists>s s'. robotics_mount win themes th reduced rng delta = Inr s
       \<and> robotics_handleWindowResize win' s = Inr s'
       \<and> view_of (rb_renderer s') (rb_camera s')
           = (Some (innerWidth win', innerHeight win'),
              Some (js_div (innerWidth win') (innerHeight win')),
              Some (js_div (innerWidth win') (innerHeight win')))
       \<and> h_calls s' = h_calls s @ [SetSize (innerWidth win') (innerHeight win'),
                                    UpdateProjectionMatrix])
   \<and> map_option resize_calls (session_calls props dims []) = Some 1
   \<and> map_option resize_calls (robotics_mount_calls win themes th reduced rng delta) = Some 0
   \<and> (\<exists>s. robotics_mount win themes th reduced rng delta = Inr s
       \<and> view_of (rb_renderer s) (rb_camera s)
           = (Some (innerWidth win, innerHeight win),
              Some (js_div (innerWidth win) (innerHeight win)),
              Some (js_div (innerWidth win) (innerHeight win))))"
proof -
  obtain s where s: "portrait_session props dims evs = Inr s" "refs_set s"
    using portrait_session_ok by blast
  have a: "\<exists>s s'. portrait_session props dims evs = Inr s
       \<and> portrait_handleResize reduced (w, h) s = Inr s'
       \<and> view_of (pt_renderer s') (pt_camera s')
           = (Some (w, h), Some (js_div w h), Some (js_div w h))
       \<and> h_calls s' = h_calls s @ [SetSize w h, UpdateProjectionMatrix]
                         @ (if reduced then [Render] else [])"
    using s portrait_handleResize_result[OF s(2), of reduced w h] by blast
  have c: "map_option resize_calls (session_calls props dims []) = Some 1"
    by (simp add: portrait_mount_calls resize_calls_def)
  have d: "map_option resize_calls (robotics_mount_calls win themes th reduced rng delta)
             = Some 0"
    by (simp add: robotics_mount_calls_eq(1) resize_calls_def)
  have e: "\<exists>s. robotics_mount win themes th reduced rng delta = Inr s
       \<and> view_of (rb_renderer s) (rb_camera s)
           = (Some (innerWidth win, innerHeight win),
              Some (js_div (innerWidth win) (innerHeight win)),
              Some (js_div (innerWidth win) (innerHeight win)))"
    using robotics_mount_state[of win themes th reduced rng delta]
    by (auto simp: view_of_def)
  show ?thesis
    using a c d e robotics_handleWindowResize_result[of win themes th reduced rng delta win']
    by blast
qed

text \<open>
  The calls of a \<open>RoboticsScene\<close> mount with motion not reduced: the resize routine is not
  among them.
\<close>

theorem robotics_mount_skips_resize_routine:
  "robotics_mount_calls window_example themes_example theme_dark False rng_half (1 / 60)
     = Some [SetSize 1024 768, AddEventListener ''resize'', Render, RequestAnimationFrame 1]
   \<and> map_option resize_calls
       (robotics_mount_calls window_example themes_example theme_dark False rng_half (1 / 60))
     = Some 0"
  using robotics_mount_calls_eq(1)[of window_example themes_example theme_dark False rng_half
      "1 / 60"]
  by (simp add: window_example_def resize_calls_def)

subsection \<open>Stopping the render loop\<close>

text \<open>
  C9. The stop operation of the render loop is the cleanup of \<open>Portrait\<close>'s render effect,
  \<open>cancelAnimationFrame(animation)\<close>; it reads no ref and cannot throw. After any session
  (a mount with any values, then any events, so also when nothing is scheduled or
  \<open>animation\<close> is still \<open>undefined\<close>) the session has not failed, and calling the cleanup
  twice in succession leaves no animation frame scheduled.
\<close>

theorem stop_twice_leaves_nothing_pending:
  "session_stop_twice_pending props dims evs = Some []"
proof -
  obtain s where "portrait_session props dims evs = Inr s" "own_frame s"
    using portrait_session_ok by blast
  then show ?thesis
    by (simp add: session_stop_twice_pending_def stop_clears_own_frame)
qed


end
